theory Spec2Isabelle
  imports Main "HOL-Library.Word" "HOL-Library.AList"
begin

section \<open>Persistence: vendor/github.com/goiiot/libmqtt/persist.go\<close>

text \<open>
  Go's \<open>error\<close> results are values of \<open>error option\<close> (\<open>None\<close> is \<open>nil\<close>).
  \<open>ErrPacketDroppedByStrategy\<close> is the package variable of persist.go; \<open>ErrNotExist\<close>
  stands for every operating-system error that \<open>os.IsNotExist\<close> accepts, \<open>ErrIO\<close> for
  every other operating-system error, \<open>ErrDecode\<close> for a failure of the packet codec.
\<close>

datatype error = ErrPacketDroppedByStrategy | ErrNotExist | ErrIO | ErrDecode

text \<open>
  \<open>Packet\<close> is a Go interface: a value is either \<open>nil\<close> (\<open>None\<close>) or a packet. The
  packets themselves belong to the codec and stay a type parameter.
\<close>

type_synonym 'p Packet = "'p option"

type_synonym bytes = "8 word list"

record PersistStrategy =
  Interval :: int
  MaxCount :: "32 word"
  DropOnExceed :: bool
  DuplicateReplace :: bool

definition defaultPersistStrategy :: PersistStrategy where
  "defaultPersistStrategy =
     \<lparr>Interval = 1000000000, MaxCount = 0, DropOnExceed = False, DuplicateReplace = True\<rparr>"

subsection \<open>nonePersist\<close>

definition nonePersist_Store :: "string \<Rightarrow> 'p Packet \<Rightarrow> error option" where
  "nonePersist_Store key p = None"

definition nonePersist_Load :: "string \<Rightarrow> 'p Packet \<times> bool" where
  "nonePersist_Load key = (None, False)"

definition nonePersist_Delete :: "string \<Rightarrow> error option" where
  "nonePersist_Delete key = None"

definition nonePersist_Destroy :: "error option" where
  "nonePersist_Destroy = None"

subsection \<open>memPersist\<close>

text \<open>
  The receiver of every method is a pointer that the method compares with \<open>nil\<close> first: it
  is an option here, and each method returns the receiver's new contents beside its
  result. \<open>m_data\<close> is the \<open>sync.Map\<close>, \<open>m_n\<close> the \<open>uint32\<close> counter.
\<close>

record 'p memPersist =
  m_data :: "string \<rightharpoonup> 'p Packet"
  m_n :: "32 word"
  m_strategy :: PersistStrategy

definition NewMemPersist :: "PersistStrategy option \<Rightarrow> 'p memPersist option" where
  "NewMemPersist strategy =
     Some \<lparr>m_data = Map.empty, m_n = 0,
           m_strategy = (case strategy of None \<Rightarrow> defaultPersistStrategy | Some s \<Rightarrow> s)\<rparr>"

definition memPersist_Store ::
  "'p memPersist option \<Rightarrow> string \<Rightarrow> 'p Packet \<Rightarrow> error option \<times> 'p memPersist option" where
  "memPersist_Store m key p =
     (case m of
        None \<Rightarrow> (None, None)
      | Some ms \<Rightarrow>
          if 0 < MaxCount (m_strategy ms) \<and> MaxCount (m_strategy ms) \<le> m_n ms
               \<and> DropOnExceed (m_strategy ms)
          then (Some ErrPacketDroppedByStrategy, m)
          else (case m_data ms key of
                  None \<Rightarrow> (None, Some (ms\<lparr>m_data := (m_data ms)(key \<mapsto> p), m_n := m_n ms + 1\<rparr>))
                | Some old \<Rightarrow>
                    if DuplicateReplace (m_strategy ms)
                    then (None, Some (ms\<lparr>m_data := (m_data ms)(key \<mapsto> p)\<rparr>))
                    else (None, m)))"

definition memPersist_Load :: "'p memPersist option \<Rightarrow> string \<Rightarrow> 'p Packet \<times> bool" where
  "memPersist_Load m key =
     (case m of
        None \<Rightarrow> (None, False)
      | Some ms \<Rightarrow>
          (case m_data ms key of
             Some p \<Rightarrow> if p \<noteq> None then (p, True) else (None, True)
           | None \<Rightarrow> (None, False)))"

definition memPersist_Delete ::
  "'p memPersist option \<Rightarrow> string \<Rightarrow> error option \<times> 'p memPersist option" where
  "memPersist_Delete m key =
     (case m of
        None \<Rightarrow> (None, None)
      | Some ms \<Rightarrow> (None, Some (ms\<lparr>m_data := (m_data ms)(key := None)\<rparr>)))"

definition memPersist_Destroy :: "'p memPersist option \<Rightarrow> error option \<times> 'p memPersist option" where
  "memPersist_Destroy m =
     (case m of
        None \<Rightarrow> (None, None)
      | Some ms \<Rightarrow> (None, Some (ms\<lparr>m_data := Map.empty\<rparr>)))"

text \<open>
  A history of calls on one in-memory store: \<open>mem_call\<close> runs one call and keeps the new
  contents, \<open>mem_calls\<close> runs a list of them, and \<open>mem_stored\<close> collects the keys whose
  \<open>Store\<close> returned \<open>nil\<close> along the way. \<open>mem_count\<close> reads the counter.
\<close>

datatype 'p mem_op = MStore string "'p Packet" | MLoad string | MDelete string | MDestroy

fun mem_call :: "'p memPersist option \<Rightarrow> 'p mem_op \<Rightarrow> 'p memPersist option" where
  "mem_call m (MStore key p) = snd (memPersist_Store m key p)"
| "mem_call m (MLoad key) = m"
| "mem_call m (MDelete key) = snd (memPersist_Delete m key)"
| "mem_call m MDestroy = snd (memPersist_Destroy m)"

fun mem_calls :: "'p memPersist option \<Rightarrow> 'p mem_op list \<Rightarrow> 'p memPersist option" where
  "mem_calls m [] = m"
| "mem_calls m (c # cs) = mem_calls (mem_call m c) cs"

fun stored_by :: "'p memPersist option \<Rightarrow> 'p mem_op \<Rightarrow> string set" where
  "stored_by m (MStore key p) = (if fst (memPersist_Store m key p) = None then {key} else {})"
| "stored_by m c = {}"

fun mem_stored :: "'p memPersist option \<Rightarrow> 'p mem_op list \<Rightarrow> string set" where
  "mem_stored m [] = {}"
| "mem_stored m (c # cs) = stored_by m c \<union> mem_stored (mem_call m c) cs"

definition mem_count :: "'p memPersist option \<Rightarrow> 32 word" where
  "mem_count m = (case m of None \<Rightarrow> 0 | Some ms \<Rightarrow> m_n ms)"

subsection \<open>Paths: Go's path.Clean, path.Join, path.Dir and the base name\<close>

fun elems :: "string \<Rightarrow> string list" where
  "elems [] = [[]]"
| "elems (c # cs) =
     (if c = CHR ''/'' then [] # elems cs
      else (case elems cs of [] \<Rightarrow> [[c]] | e # es \<Rightarrow> (c # e) # es))"

definition clean_step :: "bool \<Rightarrow> string list \<Rightarrow> string \<Rightarrow> string list" where
  "clean_step rooted out e =
     (if e = [] \<or> e = ''.'' then out
      else if e = ''..'' then
        (if out \<noteq> [] \<and> last out \<noteq> ''..'' then butlast out
         else if rooted then out
         else out @ [''..''])
      else out @ [e])"

fun join_slash :: "string list \<Rightarrow> string" where
  "join_slash [] = []"
| "join_slash [e] = e"
| "join_slash (e # es) = e @ ''/'' @ join_slash es"

definition path_Clean :: "string \<Rightarrow> string" where
  "path_Clean p =
     (if p = [] then ''.''
      else
        (let rooted = (hd p = CHR ''/'');
             out = (if rooted then ''/'' else []) @ join_slash (foldl (clean_step rooted) [] (elems p))
         in if out = [] then ''.'' else out))"

definition path_Join :: "string \<Rightarrow> string \<Rightarrow> string" where
  "path_Join a b =
     (if a = [] \<and> b = [] then []
      else if a = [] then path_Clean b
      else path_Clean (a @ ''/'' @ b))"

definition strings_HasSuffix :: "string \<Rightarrow> string \<Rightarrow> bool" where
  "strings_HasSuffix s suffix =
     (length suffix \<le> length s \<and> drop (length s - length suffix) s = suffix)"

definition base_name :: "string \<Rightarrow> string" where
  "base_name p =
     (if p = [] then ''.''
      else
        (let q = rev (dropWhile (\<lambda>c. c = CHR ''/'') (rev p));
             b = rev (takeWhile (\<lambda>c. c \<noteq> CHR ''/'') (rev q))
         in if b = [] then ''/'' else b))"

text \<open>\<open>path.Dir\<close>: all but the last element of the path, cleaned.\<close>

definition path_Dir :: "string \<Rightarrow> string" where
  "path_Dir p = path_Clean (rev (dropWhile (\<lambda>c. c \<noteq> CHR ''/'') (rev p)))"

subsection \<open>The file system and the codec\<close>

text \<open>
  The file-backed store works on the operating system's files, which are named by their
  path as the program writes it (links are not represented). \<open>files\<close> holds the regular
  files with their contents, \<open>dirs\<close> the directories with the names of their entries,
  and \<open>faulty\<close> gives, for each kind of access, the paths on which the operating system
  fails that access with an error other than not-exist (a broken disk, a missing
  permission, a name that is too long, a component that is not a directory). The kinds are
  the \<open>Lstat\<close> of a walk, opening or reading a file, writing a file, and removing a
  path. \<open>flushers\<close> counts the background \<open>worker\<close> goroutines that \<open>Store\<close> has
  started.
\<close>

datatype access = ToStat | ToRead | ToWrite | ToRemove

record world =
  files :: "string \<rightharpoonup> bytes"
  dirs :: "string \<rightharpoonup> string set"
  faulty :: "access \<Rightarrow> string set"
  flushers :: nat

text \<open>\<open>os.Open\<close> succeeds on a regular file and on a directory.\<close>

definition os_Open :: "world \<Rightarrow> string \<Rightarrow> error option" where
  "os_Open w name =
     (if name \<in> faulty w ToRead then Some ErrIO
      else if files w name = None \<and> dirs w name = None then Some ErrNotExist
      else None)"

text \<open>\<open>ioutil.ReadFile\<close> opens a directory and then fails to read it.\<close>

definition ioutil_ReadFile :: "world \<Rightarrow> string \<Rightarrow> error + bytes" where
  "ioutil_ReadFile w name =
     (if name \<in> faulty w ToRead then Inl ErrIO
      else (case files w name of
              Some content \<Rightarrow> Inr content
            | None \<Rightarrow> if dirs w name = None then Inl ErrNotExist else Inl ErrIO))"

text \<open>
  \<open>ioutil.WriteFile\<close> fails on a directory, truncates and writes a file that is there,
  and otherwise creates the file as a new entry of its parent directory, which must
  exist.
\<close>

definition ioutil_WriteFile :: "world \<Rightarrow> string \<Rightarrow> bytes \<Rightarrow> error option \<times> world" where
  "ioutil_WriteFile w name content =
     (if name \<in> faulty w ToWrite then (Some ErrIO, w)
      else if dirs w name \<noteq> None then (Some ErrIO, w)
      else if files w name \<noteq> None then (None, w\<lparr>files := (files w)(name \<mapsto> content)\<rparr>)
      else (case dirs w (path_Dir name) of
              None \<Rightarrow> (Some (if files w (path_Dir name) = None then ErrNotExist else ErrIO), w)
            | Some entries \<Rightarrow>
                (None, w\<lparr>files := (files w)(name \<mapsto> content),
                         dirs := (dirs w)(path_Dir name \<mapsto> insert (base_name name) entries)\<rparr>)))"

text \<open>
  \<open>os.Remove\<close> removes a regular file or an empty directory, and the entry of its parent
  with it; a directory that has entries is an error, and so is a path that names nothing.
\<close>

definition del_entry :: "(string \<rightharpoonup> string set) \<Rightarrow> string \<Rightarrow> (string \<rightharpoonup> string set)" where
  "del_entry ds name =
     (case ds (path_Dir name) of
        None \<Rightarrow> ds
      | Some entries \<Rightarrow> ds(path_Dir name \<mapsto> entries - {base_name name}))"

definition os_Remove :: "world \<Rightarrow> string \<Rightarrow> error option \<times> world" where
  "os_Remove w name =
     (if name \<in> faulty w ToRemove then (Some ErrIO, w)
      else if files w name \<noteq> None then
        (None, w\<lparr>files := (files w)(name := None), dirs := del_entry (dirs w) name\<rparr>)
      else (case dirs w name of
              None \<Rightarrow> (Some ErrNotExist, w)
            | Some entries \<Rightarrow>
                if entries = {} then (None, w\<lparr>dirs := (del_entry (dirs w) name)(name := None)\<rparr>)
                else (Some ErrIO, w)))"

text \<open>
  The packet codec is outside persist.go: \<open>Bytes\<close> is the packet's method, \<open>Decode\<close>
  stands for \<open>Decode(V311, bytes.NewReader(content))\<close>.
\<close>

record 'p codec =
  Bytes :: "'p \<Rightarrow> bytes"
  Decode :: "bytes \<Rightarrow> error + 'p Packet"

subsection \<open>filePersist\<close>

definition fileSuffix :: string where
  "fileSuffix = ''.mqtt''"

text \<open>
  \<open>f_inMemBuf\<close> is the staging \<open>sync.Map\<close>. The flush ranges over it, so it is an
  association list: \<open>Range\<close> visits the entries in the list's order (Go leaves the order
  open).
\<close>

record 'p filePersist =
  f_dirPath :: string
  f_inMemBuf :: "(string \<times> 'p Packet) list"
  f_inMemSize :: "32 word"
  f_bytesBuf :: bytes
  f_strategy :: PersistStrategy
  f_n :: "32 word"

text \<open>
  \<open>NewFilePersist\<close> counts packet files with \<open>filepath.Walk\<close>. Walk calls the function
  for the root first. The function answers \<open>SkipDir\<close> when the root cannot be read or is a
  directory, and that ends the walk; only a root that is a regular file reaches the test
  of the suffix.
\<close>

definition NewFilePersist ::
  "world \<Rightarrow> string \<Rightarrow> PersistStrategy option \<Rightarrow> 'p filePersist option" where
  "NewFilePersist w dirPath strategy =
     Some \<lparr>f_dirPath = dirPath, f_inMemBuf = [], f_inMemSize = 0, f_bytesBuf = [],
           f_strategy = (case strategy of Some s \<Rightarrow> s | None \<Rightarrow> defaultPersistStrategy),
           f_n = (if dirPath \<in> faulty w ToStat \<or> files w dirPath = None then 0
                  else if strings_HasSuffix (base_name dirPath) fileSuffix then 1 else 0)\<rparr>"

definition getFilename :: "'p filePersist \<Rightarrow> string \<Rightarrow> string" where
  "getFilename ms key = path_Join (f_dirPath ms) (key @ fileSuffix)"

definition getPacketFromFile :: "'p codec \<Rightarrow> world \<Rightarrow> string \<Rightarrow> error + 'p Packet" where
  "getPacketFromFile cd w path =
     (case ioutil_ReadFile w path of
        Inl err \<Rightarrow> Inl err
      | Inr content \<Rightarrow>
          (case Decode cd content of Inl err \<Rightarrow> Inl err | Inr packet \<Rightarrow> Inr packet))"

definition exists :: "'p filePersist \<Rightarrow> world \<Rightarrow> string \<Rightarrow> bool" where
  "exists ms w key =
     (case os_Open w (getFilename ms key) of
        Some err \<Rightarrow> if err = ErrNotExist then False else True
      | None \<Rightarrow> True)"

definition filePersist_store ::
  "'p codec \<Rightarrow> 'p filePersist option \<Rightarrow> world \<Rightarrow> string \<Rightarrow> 'p Packet
     \<Rightarrow> error option \<times> 'p filePersist option \<times> world" where
  "filePersist_store cd m w key p =
     (case m of
        None \<Rightarrow> (None, m, w)
      | Some ms \<Rightarrow>
          (case p of
             None \<Rightarrow> (None, m, w)
           | Some pk \<Rightarrow>
               (case ioutil_WriteFile w (getFilename ms key) (Bytes cd pk) of
                  (Some err, w') \<Rightarrow> (Some err, m, w')
                | (None, w') \<Rightarrow>
                    (None, Some (ms\<lparr>f_n := f_n ms + 1, f_inMemSize := f_inMemSize ms - 1\<rparr>), w'))))"

definition filePersist_Store ::
  "'p codec \<Rightarrow> 'p filePersist option \<Rightarrow> world \<Rightarrow> string \<Rightarrow> 'p Packet
     \<Rightarrow> error option \<times> 'p filePersist option \<times> world" where
  "filePersist_Store cd m w key p =
     (case m of
        None \<Rightarrow> (None, None, w)
      | Some ms \<Rightarrow>
          if 0 < MaxCount (f_strategy ms) \<and> DropOnExceed (f_strategy ms)
               \<and> MaxCount (f_strategy ms) \<le> f_n ms + f_inMemSize ms
          then (Some ErrPacketDroppedByStrategy, m, w)
          else if \<not> exists ms w key \<or> DuplicateReplace (f_strategy ms) then
            (if 0 < Interval (f_strategy ms) then
               (None,
                Some (ms\<lparr>f_inMemBuf := AList.update key p (f_inMemBuf ms),
                          f_inMemSize := f_inMemSize ms + 1\<rparr>),
                if f_inMemSize ms = 0 then w\<lparr>flushers := Suc (flushers w)\<rparr> else w)
             else filePersist_store cd m w key p)
          else (None, m, w))"

definition filePersist_Load ::
  "'p codec \<Rightarrow> 'p filePersist option \<Rightarrow> world \<Rightarrow> string \<Rightarrow> 'p Packet \<times> bool" where
  "filePersist_Load cd m w key =
     (case m of
        None \<Rightarrow> (None, False)
      | Some ms \<Rightarrow>
          (case getPacketFromFile cd w (getFilename ms key) of
             Inl err \<Rightarrow> (None, False)
           | Inr packet \<Rightarrow> (packet, True)))"

definition filePersist_Delete ::
  "'p filePersist option \<Rightarrow> world \<Rightarrow> string \<Rightarrow> error option \<times> world" where
  "filePersist_Delete m w key =
     (case m of
        None \<Rightarrow> (None, w)
      | Some ms \<Rightarrow> os_Remove w (path_Join (f_dirPath ms) key))"

text \<open>
  The flush. \<open>worker_range\<close> is the \<open>Range\<close> over the staging map: a \<open>nil\<close> entry is
  skipped, every other entry is handed to \<open>store\<close>, whose result is discarded, and its
  key is noted. \<open>worker\<close> then removes the noted keys and calls itself while
  \<open>inMemSize\<close> is positive; the sleep is not represented. Nothing bounds the number
  of rounds, so \<open>worker\<close> takes fuel and returns \<open>None\<close> when it runs out.
\<close>

fun worker_range ::
  "'p codec \<Rightarrow> (string \<times> 'p Packet) list \<Rightarrow> 'p filePersist \<times> world \<times> string list
     \<Rightarrow> 'p filePersist \<times> world \<times> string list" where
  "worker_range cd [] acc = acc"
| "worker_range cd ((k, v) # rest) (ms, w, persistedKeys) =
     (case v of
        None \<Rightarrow> worker_range cd rest (ms, w, persistedKeys)
      | Some p \<Rightarrow>
          (case filePersist_store cd (Some ms) w k (Some p) of
             (err, Some ms', w') \<Rightarrow> worker_range cd rest (ms', w', persistedKeys @ [k])
           | (err, None, w') \<Rightarrow> worker_range cd rest (ms, w', persistedKeys @ [k])))"

definition worker_round :: "'p codec \<Rightarrow> 'p filePersist \<Rightarrow> world \<Rightarrow> 'p filePersist \<times> world" where
  "worker_round cd ms w =
     (case worker_range cd (f_inMemBuf ms) (ms, w, []) of
        (ms', w', persistedKeys) \<Rightarrow>
          (ms'\<lparr>f_inMemBuf := fold AList.delete persistedKeys (f_inMemBuf ms')\<rparr>, w'))"

fun worker ::
  "nat \<Rightarrow> 'p codec \<Rightarrow> 'p filePersist \<Rightarrow> world \<Rightarrow> ('p filePersist \<times> world) option" where
  "worker 0 cd ms w = None"
| "worker (Suc fuel) cd ms w =
     (case worker_round cd ms w of
        (ms', w') \<Rightarrow> if 0 < f_inMemSize ms' then worker fuel cd ms' w' else Some (ms', w'))"

subsection \<open>PersistMethod\<close>

text \<open>
  The interface \<open>PersistMethod\<close> with its three implementations in persist.go; a call on
  the interface goes to the method of the implementation behind it.
\<close>

datatype 'p PersistMethod =
    NonePersist
  | MemPersist "'p memPersist option"
  | FilePersist "'p filePersist option"

fun Store ::
  "'p codec \<Rightarrow> 'p PersistMethod \<Rightarrow> world \<Rightarrow> string \<Rightarrow> 'p Packet
     \<Rightarrow> error option \<times> 'p PersistMethod \<times> world" where
  "Store cd NonePersist w key p = (nonePersist_Store key p, NonePersist, w)"
| "Store cd (MemPersist m) w key p =
     (case memPersist_Store m key p of (err, m') \<Rightarrow> (err, MemPersist m', w))"
| "Store cd (FilePersist m) w key p =
     (case filePersist_Store cd m w key p of (err, m', w') \<Rightarrow> (err, FilePersist m', w'))"

fun Load :: "'p codec \<Rightarrow> 'p PersistMethod \<Rightarrow> world \<Rightarrow> string \<Rightarrow> 'p Packet \<times> bool" where
  "Load cd NonePersist w key = nonePersist_Load key"
| "Load cd (MemPersist m) w key = memPersist_Load m key"
| "Load cd (FilePersist m) w key = filePersist_Load cd m w key"

fun Delete ::
  "'p PersistMethod \<Rightarrow> world \<Rightarrow> string \<Rightarrow> error option \<times> 'p PersistMethod \<times> world" where
  "Delete NonePersist w key = (nonePersist_Delete key, NonePersist, w)"
| "Delete (MemPersist m) w key =
     (case memPersist_Delete m key of (err, m') \<Rightarrow> (err, MemPersist m', w))"
| "Delete (FilePersist m) w key =
     (case filePersist_Delete m w key of (err, w') \<Rightarrow> (err, FilePersist m, w'))"

text \<open>
  The identity codec on byte strings, for running the file-backed store on concrete
  packets.
\<close>

definition raw_codec :: "bytes codec" where
  "raw_codec = \<lparr>Bytes = (\<lambda>p. p), Decode = (\<lambda>content. Inr (Some content))\<rparr>"

section \<open>Connections: handleWS, handleConn, tcpWorker\<close>

text \<open>
  Modelled from the spec: the packet kinds of the codec, whose declarations are not among
  the sources (only ping.go is). The handlers ask one thing of a decoded packet: whether
  it is a \<open>*ConnPacket\<close>.
\<close>

datatype ctrl_packet =
    ConnPacket (ClientID: string) (Keepalive: "16 word")
  | ConnAckPacket
  | PublishPacket
  | PingReqPacket
  | PingRespPacket
  | DisConnPacket

text \<open>The protocol version is a byte: \<open>V311\<close>, \<open>V5\<close>, or any other value.\<close>

datatype ProtoVersion = V311 | V5 | VOther

text \<open>The type assertion \<open>pkt.(*mqtt.ConnPacket)\<close>: it fails on \<open>nil\<close> and on every other kind.\<close>

fun asConnPacket :: "ctrl_packet Packet \<Rightarrow> ctrl_packet option" where
  "asConnPacket (Some (ConnPacket cid ka)) = Some (ConnPacket cid ka)"
| "asConnPacket pkt = None"

text \<open>
  The fields of \<open>config\<close> that the service reads (conf.go); the log and persistence
  settings are not read by the functions below.
\<close>

record config =
  version :: ProtoVersion
  compatible :: bool
  listen :: string
  tlsCertFile :: string
  tlsKeyFile :: string
  tcpPort :: int
  tcpsPort :: int
  wsPort :: int
  wssPort :: int
  maxTcp :: int
  maxTcps :: int
  maxWs :: int
  maxWss :: int
  graceShutdownTime :: int

text \<open>
  A transport connection is a number. \<open>connImpl\<close> is what \<open>newConn\<close> builds (the
  channels are empty and the context is not cancelled at that point); \<open>worker_connImpl\<close>
  is the \<open>connImpl\<close> of the file that declares \<open>tcpWorker\<close> and the registry.
\<close>

record connImpl =
  c_conn :: nat
  c_version :: ProtoVersion
  c_connPkt :: ctrl_packet
  c_cancelled :: bool

record worker_connImpl =
  t_conn :: nat
  t_connPkt :: ctrl_packet
  t_cancelled :: bool

text \<open>
  What the handlers can change: \<open>closed\<close> are the transport connections on which
  \<open>Close\<close> was called, \<open>sent\<close> the packets written to a connection, \<open>connections\<close>
  the package variable of that name (the registry), \<open>running\<close> the connections whose
  receive and send loops were started.
\<close>

record server =
  closed :: "nat set"
  sent :: "(nat \<times> ctrl_packet) list"
  connections :: "string \<rightharpoonup> worker_connImpl"
  running :: "connImpl list"

definition newConn :: "ProtoVersion \<Rightarrow> nat \<Rightarrow> ctrl_packet \<Rightarrow> connImpl" where
  "newConn ver conn connPkt =
     \<lparr>c_conn = conn, c_version = ver, c_connPkt = connPkt, c_cancelled = False\<rparr>"

text \<open>
  \<open>decode ver conn\<close> is what \<open>mqtt.Decode(ver, connRW)\<close> yields for the first packet on
  the connection. The \<open>switch\<close> on \<open>conf.version\<close> has no default: any other version
  leaves \<open>pkt\<close> \<open>nil\<close>.
\<close>

definition handleConn ::
  "config \<Rightarrow> (ProtoVersion \<Rightarrow> nat \<Rightarrow> error + ctrl_packet Packet) \<Rightarrow> nat \<Rightarrow> server \<Rightarrow> server" where
  "handleConn conf decode conn st =
     (case (case version conf of
              V311 \<Rightarrow> (case decode V311 conn of Inl err \<Rightarrow> Inl err | Inr pkt \<Rightarrow> Inr pkt)
            | V5 \<Rightarrow> (case decode V5 conn of Inl err \<Rightarrow> Inl err | Inr pkt \<Rightarrow> Inr pkt)
            | VOther \<Rightarrow> Inr None) of
        Inl err \<Rightarrow> st
      | Inr pkt \<Rightarrow>
          (case asConnPacket pkt of
             None \<Rightarrow> st\<lparr>closed := insert conn (closed st)\<rparr>
           | Some connPkt \<Rightarrow> st\<lparr>running := running st @ [newConn V311 conn connPkt]\<rparr>))"

text \<open>
  \<open>handleWS\<close>: \<open>up\<close> is the outcome of the upgrade; the deferred \<open>conn.Close()\<close> runs
  when \<open>handleConn\<close> has returned.
\<close>

definition handleWS ::
  "config \<Rightarrow> (ProtoVersion \<Rightarrow> nat \<Rightarrow> error + ctrl_packet Packet) \<Rightarrow> error + nat \<Rightarrow> server \<Rightarrow> server" where
  "handleWS conf decode up st =
     (case up of
        Inl err \<Rightarrow> st
      | Inr conn \<Rightarrow>
          (let st' = handleConn conf decode conn st
           in st'\<lparr>closed := insert conn (closed st')\<rparr>))"

text \<open>\<open>decodeOne conn\<close> is what \<open>libmqtt.DecodeOnePacket(libmqtt.V5, conn)\<close> yields.\<close>

definition tcpWorker ::
  "(nat \<Rightarrow> error + ctrl_packet Packet) \<Rightarrow> nat \<Rightarrow> server \<Rightarrow> server" where
  "tcpWorker decodeOne conn st =
     (case decodeOne conn of
        Inl err \<Rightarrow> st
      | Inr pkt \<Rightarrow>
          (case asConnPacket pkt of
             None \<Rightarrow> st\<lparr>closed := insert conn (closed st)\<rparr>
           | Some connPkt \<Rightarrow>
               st\<lparr>connections := (connections st)
                     ([] \<mapsto> \<lparr>t_conn = conn, t_connPkt = connPkt, t_cancelled = False\<rparr>)\<rparr>))"

section \<open>The listeners and shutdown: mqtt/base.go\<close>

datatype transport = TCP | TCPS | WS | WSS

text \<open>
  One round of the accept loops of \<open>initTCPListen\<close> and \<open>initTCPSListen\<close>: \<open>Accept\<close>
  fails (logged, the loop goes on) or yields a connection, which goes to \<open>handleConn\<close>.
  The two HTTP servers call \<open>handleWS\<close> for each request on the path.
\<close>

datatype accepted = AcceptError | Accepted nat

definition initTCPListen_accept ::
  "config \<Rightarrow> (ProtoVersion \<Rightarrow> nat \<Rightarrow> error + ctrl_packet Packet) \<Rightarrow> accepted \<Rightarrow> server \<Rightarrow> server" where
  "initTCPListen_accept conf decode a st =
     (case a of AcceptError \<Rightarrow> st | Accepted conn \<Rightarrow> handleConn conf decode conn st)"

definition initTCPSListen_accept ::
  "config \<Rightarrow> (ProtoVersion \<Rightarrow> nat \<Rightarrow> error + ctrl_packet Packet) \<Rightarrow> accepted \<Rightarrow> server \<Rightarrow> server" where
  "initTCPSListen_accept conf decode a st =
     (case a of AcceptError \<Rightarrow> st | Accepted conn \<Rightarrow> handleConn conf decode conn st)"

text \<open>
  \<open>serve t\<close> is what transport \<open>t\<close> does with a connection that arrives, \<open>cap\<close> is the
  cap that the configuration holds for the transport, and \<open>live\<close> are the connections
  whose loops were started and that were not closed.
\<close>

fun serve ::
  "transport \<Rightarrow> config \<Rightarrow> (ProtoVersion \<Rightarrow> nat \<Rightarrow> error + ctrl_packet Packet) \<Rightarrow> nat
     \<Rightarrow> server \<Rightarrow> server" where
  "serve TCP conf decode conn st = initTCPListen_accept conf decode (Accepted conn) st"
| "serve TCPS conf decode conn st = initTCPSListen_accept conf decode (Accepted conn) st"
| "serve WS conf decode conn st = handleWS conf decode (Inr conn) st"
| "serve WSS conf decode conn st = handleWS conf decode (Inr conn) st"

fun cap :: "config \<Rightarrow> transport \<Rightarrow> int" where
  "cap conf TCP = maxTcp conf"
| "cap conf TCPS = maxTcps conf"
| "cap conf WS = maxWs conf"
| "cap conf WSS = maxWss conf"

definition live :: "server \<Rightarrow> nat set" where
  "live st = {c \<in> c_conn ` set (running st). c \<notin> closed st}"

text \<open>
  The package variables \<open>tcpService\<close>, \<open>tcpsService\<close>, \<open>wsService\<close> and \<open>wssService\<close>
  (\<open>None\<close> is \<open>nil\<close>; a listener is named by its transport), the listening sockets that
  are open, the \<open>Shutdown\<close> calls made with the timeout of their context, and the
  counter of the wait group.
\<close>

record supervisor =
  tcpService :: "transport option"
  tcpsService :: "transport option"
  wsService :: "transport option"
  wssService :: "transport option"
  listening :: "transport set"
  shutdowns :: "(transport \<times> int) list"
  wg :: int

text \<open>What start-up meets outside the program: whether an address can be bound, whether
  the key pair loads.\<close>

record env =
  bindable :: "transport \<Rightarrow> bool"
  keypair_ok :: bool

datatype abort = Panic | Fatal

definition Second :: int where
  "Second = 1000000000"

text \<open>
  Each \<open>init...Listen\<close> up to the point where it blocks in its loop or in
  \<open>ListenAndServe\<close>. The listener and the server are bound with \<open>:=\<close> inside the
  function, which declares a local variable of the package variable's name: the package
  variable is not assigned.
\<close>

definition initTCPListen :: "config \<Rightarrow> env \<Rightarrow> supervisor \<Rightarrow> abort + supervisor" where
  "initTCPListen conf e s =
     (if \<not> bindable e TCP then Inl Panic
      else Inr (s\<lparr>listening := insert TCP (listening s)\<rparr>))"

definition initTCPSListen :: "config \<Rightarrow> env \<Rightarrow> supervisor \<Rightarrow> abort + supervisor" where
  "initTCPSListen conf e s =
     (if \<not> keypair_ok e then Inl Fatal
      else if \<not> bindable e TCPS then Inl Fatal
      else Inr (s\<lparr>listening := insert TCPS (listening s)\<rparr>))"

definition initWSListen :: "config \<Rightarrow> env \<Rightarrow> supervisor \<Rightarrow> abort + supervisor" where
  "initWSListen conf e s =
     (if \<not> bindable e WS then Inr (s\<lparr>wg := wg s - 1\<rparr>)
      else Inr (s\<lparr>listening := insert WS (listening s)\<rparr>))"

definition initWSSListen :: "config \<Rightarrow> env \<Rightarrow> supervisor \<Rightarrow> abort + supervisor" where
  "initWSSListen conf e s =
     (if \<not> keypair_ok e then Inl Fatal
      else if \<not> bindable e WSS then Inr (s\<lparr>wg := wg s - 1\<rparr>)
      else Inr (s\<lparr>listening := insert WSS (listening s)\<rparr>))"

definition destroy :: "int \<Rightarrow> supervisor \<Rightarrow> supervisor" where
  "destroy timeout s =
     (let s1 = (case tcpService s of
                  None \<Rightarrow> s
                | Some l \<Rightarrow> s\<lparr>listening := listening s - {l}\<rparr>);
          s2 = (case tcpsService s1 of
                  None \<Rightarrow> s1
                | Some l \<Rightarrow> s1\<lparr>listening := listening s1 - {l}\<rparr>);
          s3 = (case wsService s2 of
                  None \<Rightarrow> s2
                | Some l \<Rightarrow> s2\<lparr>wg := wg s2 + 1, shutdowns := shutdowns s2 @ [(l, timeout)],
                               listening := listening s2 - {l}\<rparr>);
          s4 = (case wssService s3 of
                  None \<Rightarrow> s3
                | Some l \<Rightarrow> s3\<lparr>wg := wg s3 + 1, shutdowns := shutdowns s3 @ [(l, timeout)],
                               listening := listening s3 - {l}\<rparr>)
      in s4)"

text \<open>
  \<open>Init\<close> in two parts: \<open>Init_listen\<close> starts the enabled listeners and the goroutine
  that waits for the exit signal; \<open>Init_exit\<close> is what that goroutine does when the
  signal arrives. \<open>start\<close> is the state of the package before \<open>Init\<close>, and
  \<open>step\<close> is one of the four \<open>if\<close> statements: the wait group is raised and the
  listener started when its port is positive; a panic or a fatal log ends the program.
\<close>

definition start :: supervisor where
  "start = \<lparr>tcpService = None, tcpsService = None, wsService = None, wssService = None,
            listening = {}, shutdowns = [], wg = 0\<rparr>"

definition step ::
  "bool \<Rightarrow> (supervisor \<Rightarrow> abort + supervisor) \<Rightarrow> abort + supervisor \<Rightarrow> abort + supervisor" where
  "step enabled init r =
     (case r of
        Inl a \<Rightarrow> Inl a
      | Inr s \<Rightarrow> if enabled then init (s\<lparr>wg := wg s + 1\<rparr>) else Inr s)"

definition Init_listen :: "config \<Rightarrow> env \<Rightarrow> supervisor \<Rightarrow> abort + supervisor" where
  "Init_listen conf e s =
     (case step (0 < wssPort conf) (initWSSListen conf e)
             (step (0 < wsPort conf) (initWSListen conf e)
               (step (0 < tcpsPort conf) (initTCPSListen conf e)
                 (step (0 < tcpPort conf) (initTCPListen conf e) (Inr s)))) of
        Inl a \<Rightarrow> Inl a
      | Inr s' \<Rightarrow> Inr (s'\<lparr>wg := wg s' + 1\<rparr>))"

definition Init_exit :: "supervisor \<Rightarrow> supervisor" where
  "Init_exit s = (let s' = destroy (10 * Second) s in s'\<lparr>wg := wg s' - 1\<rparr>)"

section \<open>Concrete inputs\<close>

text \<open>
  A file system that holds the empty directory \<open>d\<close> and has no fault, and a strategy
  that drops at \<open>n\<close> records.
\<close>

definition empty_world :: world where
  "empty_world = \<lparr>files = Map.empty, dirs = [''d'' \<mapsto> {}], faulty = (\<lambda>a. {}),
                   flushers = 0\<rparr>"

definition dropping :: "32 word \<Rightarrow> int \<Rightarrow> PersistStrategy" where
  "dropping n interval =
     \<lparr>Interval = interval, MaxCount = n, DropOnExceed = True, DuplicateReplace = True\<rparr>"

definition keeping :: PersistStrategy where
  "keeping = \<lparr>Interval = 0, MaxCount = 0, DropOnExceed = False, DuplicateReplace = False\<rparr>"

text \<open>
  A file system where the packet file of key \<open>k\<close> under directory \<open>d\<close> is on a broken
  disk (every access fails), one where the directory is empty and the operating system
  cannot resolve the name of that packet file, one where that packet file can be written
  and not read, a buffered store with one staged record for that key, and a history
  of calls on an in-memory store: two keys stored, both deleted, the store destroyed.
\<close>

definition broken_world :: world where
  "broken_world =
     \<lparr>files = [''d/k.mqtt'' \<mapsto> [1]], dirs = [''d'' \<mapsto> {''k.mqtt''}],
      faulty = (\<lambda>a. {''d/k.mqtt''}), flushers = 0\<rparr>"

definition writeonly_world :: world where
  "writeonly_world =
     \<lparr>files = [''d/k.mqtt'' \<mapsto> [7]], dirs = [''d'' \<mapsto> {''k.mqtt''}],
      faulty = (\<lambda>a. if a = ToRead then {''d/k.mqtt''} else {}), flushers = 0\<rparr>"

definition faulty_world :: world where
  "faulty_world =
     \<lparr>files = Map.empty, dirs = [''d'' \<mapsto> {}], faulty = (\<lambda>a. {''d/k.mqtt''}),
      flushers = 0\<rparr>"

definition staged :: "bytes filePersist" where
  "staged = \<lparr>f_dirPath = ''d'', f_inMemBuf = [(''k'', Some [2])], f_inMemSize = 1,
             f_bytesBuf = [], f_strategy = dropping 0 Second, f_n = 0\<rparr>"

definition two_then_cleared :: "bytes mem_op list" where
  "two_then_cleared =
     [MStore ''a'' (Some [1]), MStore ''b'' (Some [2]), MDelete ''a'', MDelete ''b'', MDestroy]"

text \<open>
  A server on which nothing has happened, a configuration with protocol 3.1.1 and all four
  ports enabled, a start-up where every address binds and the key pair loads, and three
  first packets: bytes that do not decode, a ping request, and a connect packet with a
  client identifier.
\<close>

definition idle :: server where
  "idle = \<lparr>closed = {}, sent = [], connections = Map.empty, running = []\<rparr>"

definition conf311 :: config where
  "conf311 =
     \<lparr>version = V311, compatible = False, listen = ''0.0.0.0'',
      tlsCertFile = ''cred/cert'', tlsKeyFile = ''cred/key'',
      tcpPort = 1883, tcpsPort = 8883, wsPort = 8083, wssPort = 18083,
      maxTcp = 0, maxTcps = 0, maxWs = 0, maxWss = 0,
      graceShutdownTime = 10 * Second\<rparr>"

definition fair_env :: env where
  "fair_env = \<lparr>bindable = (\<lambda>t. True), keypair_ok = True\<rparr>"

definition garbage :: "ProtoVersion \<Rightarrow> nat \<Rightarrow> error + ctrl_packet Packet" where
  "garbage ver conn = Inl ErrDecode"

definition ping :: "ProtoVersion \<Rightarrow> nat \<Rightarrow> error + ctrl_packet Packet" where
  "ping ver conn = Inr (Some PingReqPacket)"

definition hello :: "string \<Rightarrow> ProtoVersion \<Rightarrow> nat \<Rightarrow> error + ctrl_packet Packet" where
  "hello cid ver conn = Inr (Some (ConnPacket cid 10))"

section \<open>Properties of the persistence stores\<close>

lemmas store_defs = filePersist_Store_def filePersist_store_def filePersist_Load_def
  filePersist_Delete_def exists_def os_Open_def os_Remove_def del_entry_def
  ioutil_WriteFile_def getPacketFromFile_def ioutil_ReadFile_def getFilename_def
  NewFilePersist_def empty_world_def dropping_def raw_codec_def fileSuffix_def
  memPersist_Store_def memPersist_Load_def memPersist_Delete_def memPersist_Destroy_def
  NewMemPersist_def defaultPersistStrategy_def
  nonePersist_Store_def nonePersist_Load_def nonePersist_Delete_def

lemmas path_defs = path_Join_def path_Clean_def clean_step_def path_Dir_def base_name_def

lemma path_d_k: "path_Join ''d'' ''k.mqtt'' = ''d/k.mqtt''"
  by (simp add: path_defs)

subsection \<open>What a write and a staged store leave behind\<close>

lemma WriteFile_ok:
  assumes "ioutil_WriteFile w name content = (None, w')"
  shows "name \<notin> faulty w ToWrite" and "files w' = (files w)(name \<mapsto> content)"
    and "faulty w' = faulty w"
  using assms
  by (auto simp: ioutil_WriteFile_def split: if_splits option.splits)

lemma WriteFile_failed:
  assumes "ioutil_WriteFile w name content = (Some err, w')"
  shows "w' = w"
  using assms
  by (auto simp: ioutil_WriteFile_def split: if_splits option.splits)

lemma sync_store_ok:
  assumes "Interval (f_strategy ms) \<le> 0"
    and "\<not> exists ms w key \<or> DuplicateReplace (f_strategy ms)"
    and "filePersist_Store cd (Some ms) w key (Some pk) = (None, m', w')"
  shows "ioutil_WriteFile w (getFilename ms key) (Bytes cd pk) = (None, w')
       \<and> m' = Some (ms\<lparr>f_n := f_n ms + 1, f_inMemSize := f_inMemSize ms - 1\<rparr>)"
proof -
  from assms have "filePersist_store cd (Some ms) w key (Some pk) = (None, m', w')"
    by (simp add: filePersist_Store_def split: if_splits)
  then show ?thesis
    by (auto simp: filePersist_store_def split: prod.splits option.splits)
qed

lemma load_written:
  assumes "getFilename ms key \<notin> faulty w ToRead"
    and "files w (getFilename ms key) = Some (Bytes cd pk)"
    and "Decode cd (Bytes cd pk) = Inr (Some pk)"
    and "f_dirPath ms' = f_dirPath ms"
  shows "filePersist_Load cd (Some ms') w key = (Some pk, True)"
  using assms
  by (simp add: filePersist_Load_def getPacketFromFile_def ioutil_ReadFile_def getFilename_def)

lemma buffered_store_disk:
  assumes "0 < Interval (f_strategy ms)"
    and "filePersist_Store cd (Some ms) w key p = (r, m', w')"
  shows "files w' = files w \<and> dirs w' = dirs w \<and> faulty w' = faulty w
       \<and> (\<exists>ms'. m' = Some ms' \<and> f_dirPath ms' = f_dirPath ms
                 \<and> f_strategy ms' = f_strategy ms)"
  using assms
  by (auto simp: filePersist_Store_def split: if_splits)

lemma load_same_disk:
  assumes "files w' = files w" "dirs w' = dirs w" "faulty w' = faulty w"
    and "f_dirPath ms' = f_dirPath ms"
  shows "filePersist_Load cd (Some ms') w' key = filePersist_Load cd (Some ms) w key"
proof -
  have "ioutil_ReadFile w' = ioutil_ReadFile w"
    by (rule ext) (simp only: ioutil_ReadFile_def assms)
  then show ?thesis
    by (simp add: filePersist_Load_def getPacketFromFile_def getFilename_def assms(4))
qed

lemma buffered_store_load:
  assumes "0 < Interval (f_strategy ms)"
    and "filePersist_Store cd (Some ms) w key p = (r, m', w')"
  shows "filePersist_Load cd m' w' k = filePersist_Load cd (Some ms) w k"
proof -
  from buffered_store_disk[OF assms] obtain ms' where
    "files w' = files w" "dirs w' = dirs w" "faulty w' = faulty w"
    "m' = Some ms'" "f_dirPath ms' = f_dirPath ms"
    by blast
  then show ?thesis using load_same_disk[of w' w ms' ms cd k] by simp
qed

subsection \<open>Store, then load\<close>

lemma load_after_mem_store:
  assumes "m_data ms key = None \<or> DuplicateReplace (m_strategy ms)"
    and "memPersist_Store (Some ms) key p = (None, m')"
  shows "memPersist_Load m' key = (p, True)"
  using assms
  by (auto simp: memPersist_Store_def memPersist_Load_def split: if_splits option.splits)

lemma not_exists_readable:
  assumes "\<not> exists ms w key"
  shows "getFilename ms key \<notin> faulty w ToRead"
  using assms by (auto simp: exists_def os_Open_def split: if_splits)

lemma load_after_file_store:
  assumes i: "Interval (f_strategy ms) \<le> 0"
    and d: "\<not> exists ms w key \<or> DuplicateReplace (f_strategy ms)"
    and rd: "getFilename ms key \<notin> faulty w ToRead"
    and c: "Decode cd (Bytes cd pk) = Inr (Some pk)"
    and s: "filePersist_Store cd (Some ms) w key (Some pk) = (None, m', w')"
  shows "filePersist_Load cd m' w' key = (Some pk, True)"
proof -
  from sync_store_ok[OF i d s]
  have wr: "ioutil_WriteFile w (getFilename ms key) (Bytes cd pk) = (None, w')"
    and m': "m' = Some (ms\<lparr>f_n := f_n ms + 1, f_inMemSize := f_inMemSize ms - 1\<rparr>)"
    by simp_all
  have "filePersist_Load cd (Some (ms\<lparr>f_n := f_n ms + 1, f_inMemSize := f_inMemSize ms - 1\<rparr>)) w' key
          = (Some pk, True)"
    by (rule load_written[where ms=ms]) (use WriteFile_ok[OF wr] c rd in simp_all)
  with m' show ?thesis by simp
qed

lemma store_then_load_core:
  assumes "(\<exists>ms. pm = MemPersist (Some ms)
              \<and> (m_data ms key = None \<or> DuplicateReplace (m_strategy ms)))
         \<or> (\<exists>ms pk. pm = FilePersist (Some ms) \<and> Interval (f_strategy ms) \<le> 0
              \<and> (\<not> exists ms w key \<or> DuplicateReplace (f_strategy ms))
              \<and> getFilename ms key \<notin> faulty w ToRead
              \<and> p = Some pk \<and> Decode cd (Bytes cd pk) = Inr (Some pk))"
    and "Store cd pm w key p = (None, pm', w')"
  shows "Load cd pm' w' key = (p, True)"
proof -
  from assms(1) consider
      (mem) ms where "pm = MemPersist (Some ms)"
        "m_data ms key = None \<or> DuplicateReplace (m_strategy ms)"
    | (disk) ms pk where "pm = FilePersist (Some ms)" "Interval (f_strategy ms) \<le> 0"
        "\<not> exists ms w key \<or> DuplicateReplace (f_strategy ms)"
        "p = Some pk" "Decode cd (Bytes cd pk) = Inr (Some pk)"
        "getFilename ms key \<notin> faulty w ToRead"
    by blast
  then show ?thesis
  proof cases
    case mem
    from assms(2) mem(1) obtain m' where
      "memPersist_Store (Some ms) key p = (None, m')" "pm' = MemPersist m'"
      by (auto split: prod.splits)
    with load_after_mem_store[OF mem(2)] show ?thesis by simp
  next
    case disk
    from assms(2) disk(1,4) obtain m' where
      "filePersist_Store cd (Some ms) w key (Some pk) = (None, m', w')" "pm' = FilePersist m'"
      by (auto split: prod.splits)
    with load_after_file_store[OF disk(2,3,6,5)] show ?thesis by (simp add: disk(4))
  qed
qed

lemma buffered_Store_Load:
  assumes "pm = FilePersist (Some ms)" "0 < Interval (f_strategy ms)"
    and "Store cd pm w key p = (r, pm', w')"
  shows "files w' = files w \<and> Load cd pm' w' k = Load cd pm w k
       \<and> (\<exists>ms'. pm' = FilePersist (Some ms') \<and> f_strategy ms' = f_strategy ms)"
proof -
  from assms(1,3) obtain m' where
    s: "filePersist_Store cd (Some ms) w key p = (r, m', w')" "pm' = FilePersist m'"
    by (auto split: prod.splits)
  from buffered_store_disk[OF assms(2) s(1)] buffered_store_load[OF assms(2) s(1), of k] s(2) assms(1)
  show ?thesis by auto
qed

text \<open>
  A packet file that can be written and not read: with duplicate-replace the store in
  synchronous mode writes the packet and returns nil, and \<open>Load\<close> is absent.
\<close>

lemma store_over_unreadable_file:
  "(case Store raw_codec (FilePersist (NewFilePersist writeonly_world ''d'' (Some (dropping 0 0))))
           writeonly_world ''k'' (Some [1]) of
      (r, pm1, w1) \<Rightarrow> r = None \<and> files w1 ''d/k.mqtt'' = Some [1]
                      \<and> Load raw_codec pm1 w1 ''k'' = (None, False))"
  by (simp add: store_defs path_d_k writeonly_world_def)

text \<open>
  C1, as the claim states it, fails: the no-op store accepts a packet and loads nothing;
  the file-backed store in buffered mode accepts a packet into its staging map and loads
  from disk only; and the file-backed store in synchronous mode without duplicate-replace,
  on a key with no record whose packet file the operating system cannot open, returns nil,
  writes nothing and loads nothing.
\<close>

theorem store_then_load_counterexample:
  "Store raw_codec NonePersist empty_world ''k'' (Some [1]) = (None, NonePersist, empty_world)
   \<and> Load raw_codec NonePersist empty_world ''k'' = (None, False)
   \<and> (case Store raw_codec (FilePersist (NewFilePersist empty_world ''d'' (Some (dropping 9 Second))))
              empty_world ''k'' (Some [1]) of
         (r, pm1, w1) \<Rightarrow> r = None \<and> Load raw_codec pm1 w1 ''k'' = (None, False))
   \<and> files faulty_world (path_Join ''d'' (''k'' @ fileSuffix)) = None
   \<and> (case Store raw_codec (FilePersist (NewFilePersist faulty_world ''d'' (Some keeping)))
              faulty_world ''k'' (Some [1]) of
         (r, pm1, w1) \<Rightarrow> r = None \<and> w1 = faulty_world
                         \<and> Load raw_codec pm1 w1 ''k'' = (None, False))"
  by (simp add: store_defs path_d_k Second_def faulty_world_def keeping_def)

text \<open>
  C1 (amended): on the in-memory store, and on the file-backed store in synchronous mode
  with a packet that is not nil and that the codec decodes back from its bytes, where
  reading the packet file does not fail: when duplicate-replace is set or the store's own
  test finds nothing under the key (the in-memory map has no entry; opening the packet
  file fails with not-exist), and \<open>Store\<close> returns nil (so the packet was not dropped
  and the write did not fail), \<open>Load\<close> of the key returns the packet. The no-op store returns nil for every \<open>Store\<close>, keeps nothing
  and loads absent for every key. On the file-backed store in buffered mode \<open>Store\<close>
  leaves the files as they are, and \<open>Load\<close> of every key returns what it returned
  before the \<open>Store\<close>.
\<close>

theorem store_then_load:
  "((((\<exists>ms. pm = MemPersist (Some ms)
              \<and> (m_data ms key = None \<or> DuplicateReplace (m_strategy ms)))
         \<or> (\<exists>ms pk. pm = FilePersist (Some ms) \<and> Interval (f_strategy ms) \<le> 0
              \<and> (\<not> exists ms w key \<or> DuplicateReplace (f_strategy ms))
              \<and> getFilename ms key \<notin> faulty w ToRead
              \<and> p = Some pk \<and> Decode cd (Bytes cd pk) = Inr (Some pk)))
       \<and> Store cd pm w key p = (None, pm', w'))
      \<longrightarrow> Load cd pm' w' key = (p, True))
   \<and> Store cd NonePersist w key p = (None, NonePersist, w)
   \<and> Load cd NonePersist w k = (None, False)
   \<and> (((\<exists>ms. pm = FilePersist (Some ms) \<and> 0 < Interval (f_strategy ms))
       \<and> Store cd pm w key p = (r, pm', w'))
      \<longrightarrow> files w' = files w \<and> Load cd pm' w' k = Load cd pm w k)"
proof (intro conjI impI)
  assume "((\<exists>ms. pm = MemPersist (Some ms)
              \<and> (m_data ms key = None \<or> DuplicateReplace (m_strategy ms)))
         \<or> (\<exists>ms pk. pm = FilePersist (Some ms) \<and> Interval (f_strategy ms) \<le> 0
              \<and> (\<not> exists ms w key \<or> DuplicateReplace (f_strategy ms))
              \<and> getFilename ms key \<notin> faulty w ToRead
              \<and> p = Some pk \<and> Decode cd (Bytes cd pk) = Inr (Some pk)))
       \<and> Store cd pm w key p = (None, pm', w')"
  then show "Load cd pm' w' key = (p, True)"
    using store_then_load_core[of pm key w p cd pm' w'] by blast
next
  show "Store cd NonePersist w key p = (None, NonePersist, w)"
    by (simp add: nonePersist_Store_def)
  show "Load cd NonePersist w k = (None, False)"
    by (simp add: nonePersist_Load_def)
next
  assume a: "(\<exists>ms. pm = FilePersist (Some ms) \<and> 0 < Interval (f_strategy ms))
       \<and> Store cd pm w key p = (r, pm', w')"
  then obtain ms where ms: "pm = FilePersist (Some ms)" "0 < Interval (f_strategy ms)"
    by blast
  from buffered_Store_Load[OF ms, of cd w key p r pm' w' k] a
  show "files w' = files w" and "Load cd pm' w' k = Load cd pm w k" by simp_all
qed

theorem store_then_load_witness:
  "(case Store raw_codec (FilePersist (NewFilePersist empty_world ''d'' (Some (dropping 1 0))))
           empty_world ''a'' (Some [1]) of
      (r, pm1, w1) \<Rightarrow> r = None \<and> Load raw_codec pm1 w1 ''a'' = (Some [1], True))
   \<and> (case Store raw_codec (MemPersist (NewMemPersist None)) empty_world ''a'' (Some [1]) of
      (r, pm1, w1) \<Rightarrow> r = None \<and> Load raw_codec pm1 w1 ''a'' = (Some [1], True))
   \<and> (case Store raw_codec (FilePersist (Some staged)) broken_world ''a'' (Some [1]) of
      (r, pm1, w1) \<Rightarrow> 0 < Interval (f_strategy staged) \<and> files w1 = files broken_world
         \<and> Load raw_codec pm1 w1 ''a'' = Load raw_codec (FilePersist (Some staged)) broken_world ''a'')"
proof -
  let ?f = "FilePersist (NewFilePersist empty_world ''d'' (Some (dropping 1 0))) :: bytes PersistMethod"
  let ?m = "MemPersist (NewMemPersist None) :: bytes PersistMethod"
  let ?b = "FilePersist (Some staged) :: bytes PersistMethod"
  obtain pm1 w1 where s1: "Store raw_codec ?f empty_world ''a'' (Some [1]) = (None, pm1, w1)"
    by (simp add: store_defs path_defs)
  have h1: "(\<exists>ms. ?f = MemPersist (Some ms)
              \<and> (m_data ms ''a'' = None \<or> DuplicateReplace (m_strategy ms)))
         \<or> (\<exists>ms pk. ?f = FilePersist (Some ms) \<and> Interval (f_strategy ms) \<le> 0
              \<and> (\<not> exists ms empty_world ''a'' \<or> DuplicateReplace (f_strategy ms))
              \<and> getFilename ms ''a'' \<notin> faulty empty_world ToRead
              \<and> Some [1] = Some pk \<and> Decode raw_codec (Bytes raw_codec pk) = Inr (Some pk))"
    by (simp add: store_defs)
  obtain pm2 w2 where s2: "Store raw_codec ?m empty_world ''a'' (Some [1]) = (None, pm2, w2)"
    by (simp add: store_defs)
  have h2: "(\<exists>ms. ?m = MemPersist (Some ms)
              \<and> (m_data ms ''a'' = None \<or> DuplicateReplace (m_strategy ms)))
         \<or> (\<exists>ms pk. ?m = FilePersist (Some ms) \<and> Interval (f_strategy ms) \<le> 0
              \<and> (\<not> exists ms empty_world ''a'' \<or> DuplicateReplace (f_strategy ms))
              \<and> getFilename ms ''a'' \<notin> faulty empty_world ToRead
              \<and> Some [1] = Some pk \<and> Decode raw_codec (Bytes raw_codec pk) = Inr (Some pk))"
    by (simp add: store_defs)
  obtain r3 pm3 w3 where s3: "Store raw_codec ?b broken_world ''a'' (Some [1]) = (r3, pm3, w3)"
    by (cases "Store raw_codec ?b broken_world ''a'' (Some [1])") auto
  have i3: "0 < Interval (f_strategy staged)"
    by (simp add: staged_def dropping_def Second_def)
  then have h3: "\<exists>ms. ?b = FilePersist (Some ms) \<and> 0 < Interval (f_strategy ms)" by simp
  note t1 = store_then_load[where cd=raw_codec and key="''a''" and p="Some [1]", THEN conjunct1, rule_format]
  note t3 = store_then_load[where cd=raw_codec and key="''a''" and p="Some [1]" and k="''a''",
      THEN conjunct2, THEN conjunct2, THEN conjunct2, rule_format]
  from t1[OF conjI[OF h1 s1]] t1[OF conjI[OF h2 s2]] t3[OF conjI[OF h3 s3]] s1 s2 s3 i3
  show ?thesis by simp
qed

subsection \<open>Overflow\<close>

text \<open>
  Every successful \<open>store\<close> adds one to \<open>n\<close> and takes one from \<open>inMemSize\<close>, also in
  synchronous mode, where nothing was added to \<open>inMemSize\<close> before: the sum that
  \<open>Store\<close> compares with \<open>MaxCount\<close> stays where it was.
\<close>

lemma filePersist_store_sum:
  assumes "filePersist_store cd (Some ms) w key p = (r, Some ms', w')"
  shows "f_n ms' + f_inMemSize ms' = f_n ms + f_inMemSize ms"
  using assms
  by (auto simp: filePersist_store_def split: option.splits prod.splits)

text \<open>
  C2 fails on the file-backed store in synchronous mode: with \<open>MaxCount = 1\<close> and
  drop-on-exceed, on an empty directory, the store of a first key succeeds, the store of
  a second key succeeds as well, and the second key loads.
\<close>

theorem file_sync_overflow_not_dropped:
  "(case Store raw_codec (FilePersist (NewFilePersist empty_world ''d'' (Some (dropping 1 0))))
           empty_world ''a'' (Some [1]) of
      (r1, pm1, w1) \<Rightarrow>
        (case Store raw_codec pm1 w1 ''b'' (Some [2]) of
           (r2, pm2, w2) \<Rightarrow>
             r1 = None \<and> r2 = None \<and> Load raw_codec pm2 w2 ''b'' = (Some [2], True)))"
  by (simp add: store_defs path_defs)

text \<open>The same calls on the in-memory store and on the buffered file-backed store drop
  the second key.\<close>

lemma mem_overflow_dropped:
  "(case Store raw_codec (MemPersist (NewMemPersist (Some (dropping 1 0))))
           empty_world ''a'' (Some [1]) of
      (r1, pm1, w1) \<Rightarrow>
        (case Store raw_codec pm1 w1 ''b'' (Some [2]) of
           (r2, pm2, w2) \<Rightarrow>
             r1 = None \<and> r2 = Some ErrPacketDroppedByStrategy
             \<and> Load raw_codec pm2 w2 ''b'' = (None, False)))"
  by (simp add: store_defs path_defs)

lemma file_buffered_overflow_dropped:
  "(case Store raw_codec (FilePersist (NewFilePersist empty_world ''d'' (Some (dropping 1 Second))))
           empty_world ''a'' (Some [1]) of
      (r1, pm1, w1) \<Rightarrow>
        (case Store raw_codec pm1 w1 ''b'' (Some [2]) of
           (r2, pm2, w2) \<Rightarrow>
             r1 = None \<and> r2 = Some ErrPacketDroppedByStrategy
             \<and> Load raw_codec pm2 w2 ''b'' = (None, False)))"
  by (simp add: store_defs path_defs Second_def)

subsection \<open>Delete\<close>

text \<open>
  C3, as the claim states it, fails: on the file-backed store, deleting a key that has
  no record returns the error of \<open>os.Remove\<close>.
\<close>

theorem delete_absent_counterexample:
  "Delete (FilePersist (NewFilePersist empty_world ''d'' None) :: bytes PersistMethod) empty_world ''k''
     = (Some ErrNotExist, FilePersist (NewFilePersist empty_world ''d'' None), empty_world)"
  by (simp add: store_defs path_defs)

text \<open>
  \<open>Delete\<close> removes the path made of the directory and the key, while \<open>Store\<close> and
  \<open>Load\<close> use \<open>getFilename\<close>, which appends the suffix: a stored record survives its
  \<open>Delete\<close>. With the empty key that path is the directory of the store itself, which
  \<open>os.Remove\<close> removes when it is empty.
\<close>

lemma file_delete_leaves_record:
  "(case Store raw_codec (FilePersist (NewFilePersist empty_world ''d'' (Some (dropping 0 0))))
           empty_world ''k'' (Some [1]) of
      (r1, pm1, w1) \<Rightarrow>
        (case Delete pm1 w1 ''k'' of
           (r2, pm2, w2) \<Rightarrow>
             r1 = None \<and> r2 = Some ErrNotExist \<and> Load raw_codec pm2 w2 ''k'' = (Some [1], True)))"
  by (simp add: store_defs path_defs)

lemma file_delete_empty_key:
  "(case Delete (FilePersist (NewFilePersist empty_world ''d'' None) :: bytes PersistMethod)
           empty_world '''' of
      (r, pm', w') \<Rightarrow> r = None \<and> dirs empty_world ''d'' = Some {} \<and> dirs w' ''d'' = None)"
  "(case Delete (FilePersist (NewFilePersist empty_world ''d'' None) :: bytes PersistMethod)
           empty_world ''.'' of
      (r, pm', w') \<Rightarrow> r = None \<and> dirs w' ''d'' = None)"
  by (simp_all add: store_defs path_defs)

text \<open>
  C3 (amended): on the no-op and the in-memory store, \<open>Delete\<close> of any key returns nil,
  \<open>Load\<close> of the key is absent afterwards, and a second \<open>Delete\<close> returns nil and
  changes nothing. On the file-backed store \<open>Delete\<close> returns the result of
  \<open>os.Remove\<close>: for a key under whose names the file system holds nothing (no file and
  no directory, neither at the path \<open>Delete\<close> removes nor at the name \<open>Store\<close> writes)
  it returns an error and changes nothing, and \<open>Load\<close> of the key is absent.
\<close>

theorem delete_idempotent:
  "((pm = NonePersist \<or> (\<exists>m. pm = MemPersist m)) \<longrightarrow>
      (case Delete pm w key of
         (r, pm', w') \<Rightarrow>
           r = None \<and> w' = w \<and> Load cd pm' w' key = (None, False)
           \<and> Delete pm' w' key = (None, pm', w')))
   \<and> (pm = FilePersist (Some ms)
        \<and> files w (path_Join (f_dirPath ms) key) = None
        \<and> dirs w (path_Join (f_dirPath ms) key) = None
        \<and> files w (getFilename ms key) = None
        \<and> dirs w (getFilename ms key) = None \<longrightarrow>
      fst (Delete pm w key) \<noteq> None \<and> snd (Delete pm w key) = (pm, w)
      \<and> Load cd pm w key = (None, False))"
proof (intro conjI impI)
  assume "pm = NonePersist \<or> (\<exists>m. pm = MemPersist m)"
  then show "case Delete pm w key of
         (r, pm', w') \<Rightarrow>
           r = None \<and> w' = w \<and> Load cd pm' w' key = (None, False)
           \<and> Delete pm' w' key = (None, pm', w')"
    by (auto simp: nonePersist_Delete_def nonePersist_Load_def memPersist_Delete_def
        memPersist_Load_def split: option.splits)
next
  assume a: "pm = FilePersist (Some ms)
        \<and> files w (path_Join (f_dirPath ms) key) = None
        \<and> dirs w (path_Join (f_dirPath ms) key) = None
        \<and> files w (getFilename ms key) = None
        \<and> dirs w (getFilename ms key) = None"
  then show "fst (Delete pm w key) \<noteq> None"
    by (auto simp: filePersist_Delete_def os_Remove_def)
  from a show "snd (Delete pm w key) = (pm, w)"
    by (auto simp: filePersist_Delete_def os_Remove_def)
  from a show "Load cd pm w key = (None, False)"
    by (auto simp: filePersist_Load_def getPacketFromFile_def ioutil_ReadFile_def)
qed

theorem delete_idempotent_witness:
  "(case Delete (MemPersist (Some \<lparr>m_data = [''k'' \<mapsto> Some [1]], m_n = 1,
                    m_strategy = defaultPersistStrategy\<rparr>) :: bytes PersistMethod) empty_world ''k'' of
      (r, pm', w') \<Rightarrow>
        r = None \<and> w' = empty_world \<and> Load raw_codec pm' w' ''k'' = (None, False)
        \<and> Delete pm' w' ''k'' = (None, pm', w'))
   \<and> files empty_world (path_Join ''d'' ''k'') = None
   \<and> dirs empty_world (path_Join ''d'' ''k'') = None
   \<and> files empty_world (path_Join ''d'' (''k'' @ fileSuffix)) = None
   \<and> dirs empty_world (path_Join ''d'' (''k'' @ fileSuffix)) = None
   \<and> fst (Delete (FilePersist (NewFilePersist empty_world ''d'' None) :: bytes PersistMethod)
            empty_world ''k'') \<noteq> None"
proof -
  let ?ms = "\<lparr>f_dirPath = ''d'', f_inMemBuf = [], f_inMemSize = 0, f_bytesBuf = [],
       f_strategy = defaultPersistStrategy, f_n = 0\<rparr> :: bytes filePersist"
  let ?m = "MemPersist (Some \<lparr>m_data = [''k'' \<mapsto> Some [1]], m_n = 1,
                    m_strategy = defaultPersistStrategy\<rparr>) :: bytes PersistMethod"
  have new: "NewFilePersist empty_world ''d'' None = Some ?ms"
    by (simp add: NewFilePersist_def empty_world_def)
  have h1: "?m = NonePersist \<or> (\<exists>m. ?m = MemPersist m)" by simp
  have h2: "FilePersist (Some ?ms) = FilePersist (Some ?ms)
        \<and> files empty_world (path_Join (f_dirPath ?ms) ''k'') = None
        \<and> dirs empty_world (path_Join (f_dirPath ?ms) ''k'') = None
        \<and> files empty_world (getFilename ?ms ''k'') = None
        \<and> dirs empty_world (getFilename ?ms ''k'') = None"
    by (simp add: empty_world_def getFilename_def fileSuffix_def path_defs)
  have e: "getFilename ?ms ''k'' = path_Join ''d'' (''k'' @ fileSuffix)"
    by (simp add: getFilename_def)
  from delete_idempotent[where pm="?m" and w=empty_world and key="''k''" and cd=raw_codec, THEN conjunct1, rule_format, OF h1]
    delete_idempotent[where pm="FilePersist (Some ?ms)" and w=empty_world and key="''k''" and cd=raw_codec and ms="?ms", THEN conjunct2, rule_format, OF h2]
    h2 new e
  show ?thesis by simp
qed

subsection \<open>Duplicate keys\<close>

text \<open>
  C4, as the claim states it, fails: the no-op store loads nothing after two stores; on
  the in-memory store with \<open>MaxCount = 1\<close>, drop-on-exceed and duplicate-replace the
  second store of the key is dropped and the first packet stays; the file-backed store
  in buffered mode stages both packets and loads nothing; and the file-backed store in
  synchronous mode without duplicate-replace, on a key with no record whose packet file
  the operating system cannot open, returns nil twice and loads nothing.
\<close>

theorem duplicate_policy_counterexample:
  "(case Store raw_codec NonePersist empty_world ''k'' (Some [1]) of
      (r1, pm1, w1) \<Rightarrow>
        (case Store raw_codec pm1 w1 ''k'' (Some [2]) of
           (r2, pm2, w2) \<Rightarrow>
             r1 = None \<and> r2 = None \<and> Load raw_codec pm2 w2 ''k'' = (None, False)))
   \<and> (case Store raw_codec (MemPersist (NewMemPersist (Some (dropping 1 0))))
              empty_world ''k'' (Some [1]) of
      (r1, pm1, w1) \<Rightarrow>
        (case Store raw_codec pm1 w1 ''k'' (Some [2]) of
           (r2, pm2, w2) \<Rightarrow>
             DuplicateReplace (dropping 1 0) \<and> r1 = None \<and> r2 = Some ErrPacketDroppedByStrategy
             \<and> Load raw_codec pm2 w2 ''k'' = (Some [1], True)))
   \<and> (case Store raw_codec (FilePersist (NewFilePersist empty_world ''d'' (Some (dropping 9 Second))))
              empty_world ''k'' (Some [1]) of
      (r1, pm1, w1) \<Rightarrow>
        (case Store raw_codec pm1 w1 ''k'' (Some [2]) of
           (r2, pm2, w2) \<Rightarrow>
             r1 = None \<and> r2 = None \<and> Load raw_codec pm2 w2 ''k'' = (None, False)))
   \<and> (case Store raw_codec (FilePersist (NewFilePersist faulty_world ''d'' (Some keeping)))
              faulty_world ''k'' (Some [1]) of
      (r1, pm1, w1) \<Rightarrow>
        (case Store raw_codec pm1 w1 ''k'' (Some [2]) of
           (r2, pm2, w2) \<Rightarrow>
             files faulty_world (path_Join ''d'' (''k'' @ fileSuffix)) = None
             \<and> r1 = None \<and> r2 = None \<and> Load raw_codec pm2 w2 ''k'' = (None, False)))"
  by (simp add: store_defs path_d_k Second_def faulty_world_def keeping_def word_le_nat_alt)

lemma mem_duplicate:
  assumes "m_data ms key = None"
    and "memPersist_Store (Some ms) key p1 = (None, m1)"
    and "memPersist_Store m1 key p2 = (r2, m2)"
    and "r2 \<noteq> Some ErrPacketDroppedByStrategy"
  shows "r2 = None \<and> memPersist_Load m2 key
           = (if DuplicateReplace (m_strategy ms) then p2 else p1, True)"
  using assms
  by (auto simp: memPersist_Store_def memPersist_Load_def split: if_splits option.splits)

lemma file_duplicate_keep:
  assumes i: "Interval (f_strategy ms) \<le> 0" and e: "\<not> exists ms w key"
    and rd: "getFilename ms key \<notin> faulty w ToRead"
    and c: "Decode cd (Bytes cd pk1) = Inr (Some pk1)"
    and s1: "filePersist_Store cd (Some ms) w key (Some pk1) = (None, m1, w1)"
    and s2: "filePersist_Store cd m1 w1 key p2 = (r2, m2, w2)"
    and nd: "r2 \<noteq> Some ErrPacketDroppedByStrategy"
    and dr: "\<not> DuplicateReplace (f_strategy ms)"
  shows "r2 = None \<and> filePersist_Load cd m2 w2 key = (Some pk1, True)"
proof -
  let ?ms1 = "ms\<lparr>f_n := f_n ms + 1, f_inMemSize := f_inMemSize ms - 1\<rparr>"
  from sync_store_ok[OF i _ s1] e
  have wr: "ioutil_WriteFile w (getFilename ms key) (Bytes cd pk1) = (None, w1)"
    and m1: "m1 = Some ?ms1"
    by simp_all
  note w1 = WriteFile_ok[OF wr]
  have ex: "exists ?ms1 w1 key"
    using w1 rd by (simp add: exists_def os_Open_def getFilename_def)
  from s2 nd dr ex have "r2 = None \<and> m2 = Some ?ms1 \<and> w2 = w1"
    unfolding m1 by (simp add: filePersist_Store_def split: if_splits)
  moreover have "filePersist_Load cd (Some ?ms1) w1 key = (Some pk1, True)"
    by (rule load_written[where ms=ms]) (use w1 c rd in simp_all)
  ultimately show ?thesis by simp
qed

lemma file_duplicate_replace:
  assumes i: "Interval (f_strategy ms) \<le> 0"
    and rd: "getFilename ms key \<notin> faulty w ToRead"
    and c: "Decode cd (Bytes cd pk2) = Inr (Some pk2)"
    and s1: "filePersist_Store cd (Some ms) w key (Some pk1) = (None, m1, w1)"
    and s2: "filePersist_Store cd m1 w1 key (Some pk2) = (None, m2, w2)"
    and dr: "DuplicateReplace (f_strategy ms)"
  shows "filePersist_Load cd m2 w2 key = (Some pk2, True)"
proof -
  let ?ms1 = "ms\<lparr>f_n := f_n ms + 1, f_inMemSize := f_inMemSize ms - 1\<rparr>"
  from sync_store_ok[OF i _ s1] dr
  have wr: "ioutil_WriteFile w (getFilename ms key) (Bytes cd pk1) = (None, w1)"
    and m1: "m1 = Some ?ms1" by simp_all
  have i1: "Interval (f_strategy ?ms1) \<le> 0" and d1: "DuplicateReplace (f_strategy ?ms1)"
    using i dr by simp_all
  have rd1: "getFilename ?ms1 key \<notin> faulty w1 ToRead"
    using rd WriteFile_ok(3)[OF wr] by (simp add: getFilename_def)
  from load_after_file_store[OF i1 _ rd1 c s2[unfolded m1]] d1 show ?thesis by simp
qed

lemma duplicate_policy_core:
  assumes "(\<exists>ms. pm = MemPersist (Some ms) \<and> m_data ms key = None
              \<and> dr = DuplicateReplace (m_strategy ms))
         \<or> (\<exists>ms pk1 pk2. pm = FilePersist (Some ms) \<and> Interval (f_strategy ms) \<le> 0
              \<and> \<not> exists ms w key \<and> getFilename ms key \<notin> faulty w ToRead
              \<and> dr = DuplicateReplace (f_strategy ms)
              \<and> p1 = Some pk1 \<and> p2 = Some pk2
              \<and> Decode cd (Bytes cd pk1) = Inr (Some pk1)
              \<and> Decode cd (Bytes cd pk2) = Inr (Some pk2))"
    and "Store cd pm w key p1 = (None, pm1, w1)"
    and "Store cd pm1 w1 key p2 = (r2, pm2, w2)"
    and "r2 \<noteq> Some ErrPacketDroppedByStrategy"
  shows "(\<not> dr \<longrightarrow> r2 = None \<and> Load cd pm2 w2 key = (p1, True))
       \<and> (dr \<and> r2 = None \<longrightarrow> Load cd pm2 w2 key = (p2, True))"
proof -
  from assms(1) consider
      (mem) ms where "pm = MemPersist (Some ms)" "m_data ms key = None"
        "dr = DuplicateReplace (m_strategy ms)"
    | (disk) ms pk1 pk2 where "pm = FilePersist (Some ms)" "Interval (f_strategy ms) \<le> 0"
        "\<not> exists ms w key" "dr = DuplicateReplace (f_strategy ms)"
        "p1 = Some pk1" "p2 = Some pk2"
        "Decode cd (Bytes cd pk1) = Inr (Some pk1)" "Decode cd (Bytes cd pk2) = Inr (Some pk2)"
        "getFilename ms key \<notin> faulty w ToRead"
    by blast
  then show ?thesis
  proof cases
    case mem
    from assms(2) mem(1) obtain m1 where
      s1: "memPersist_Store (Some ms) key p1 = (None, m1)" "pm1 = MemPersist m1"
      by (auto split: prod.splits)
    from assms(3) s1(2) obtain m2 where
      s2: "memPersist_Store m1 key p2 = (r2, m2)" "pm2 = MemPersist m2"
      by (auto split: prod.splits)
    from mem_duplicate[OF mem(2) s1(1) s2(1) assms(4)] s2(2) mem(3)
    show ?thesis by simp
  next
    case disk
    from assms(2) disk(1,5) obtain m1 where
      s1: "filePersist_Store cd (Some ms) w key (Some pk1) = (None, m1, w1)" "pm1 = FilePersist m1"
      by (auto split: prod.splits)
    from assms(3) s1(2) obtain m2 where
      s2: "filePersist_Store cd m1 w1 key p2 = (r2, m2, w2)" "pm2 = FilePersist m2"
      by (auto split: prod.splits)
    show ?thesis
    proof (rule conjI; rule impI)
      assume "\<not> dr"
      with disk(4) have "\<not> DuplicateReplace (f_strategy ms)" by simp
      from file_duplicate_keep[OF disk(2,3,9,7) s1(1) s2(1) assms(4) this] s2(2) disk(5)
      show "r2 = None \<and> Load cd pm2 w2 key = (p1, True)" by simp
    next
      assume "dr \<and> r2 = None"
      with disk(4) have d: "DuplicateReplace (f_strategy ms)" and r: "r2 = None" by simp_all
      from s2(1) r disk(6) have "filePersist_Store cd m1 w1 key (Some pk2) = (None, m2, w2)"
        by simp
      from file_duplicate_replace[OF disk(2,9,8) s1(1) this d] s2(2) disk(6)
      show "Load cd pm2 w2 key = (p2, True)" by simp
    qed
  qed
qed

text \<open>
  C4 (amended): on the in-memory store, and on the file-backed store in synchronous mode
  with packets that are not nil and that the codec decodes back from their bytes, where
  reading the packet file does not fail: starting where the store's own test finds nothing under the key (the in-memory map has
  no entry; opening the packet file fails with not-exist), when the first store returns
  nil and the second is not dropped, then without duplicate-replace the second store
  returns nil and the key loads the first packet, and with duplicate-replace, when the
  second store returns nil, the key loads the second packet. On the no-op store both
  stores return nil and the key loads absent. On the file-backed store in buffered mode
  \<open>Load\<close> of every key returns after the two stores what it returned before them.
\<close>

theorem duplicate_policy:
  "((((\<exists>ms. pm = MemPersist (Some ms) \<and> m_data ms key = None
              \<and> dr = DuplicateReplace (m_strategy ms))
         \<or> (\<exists>ms pk1 pk2. pm = FilePersist (Some ms) \<and> Interval (f_strategy ms) \<le> 0
              \<and> \<not> exists ms w key \<and> getFilename ms key \<notin> faulty w ToRead
              \<and> dr = DuplicateReplace (f_strategy ms)
              \<and> p1 = Some pk1 \<and> p2 = Some pk2
              \<and> Decode cd (Bytes cd pk1) = Inr (Some pk1)
              \<and> Decode cd (Bytes cd pk2) = Inr (Some pk2)))
       \<and> Store cd pm w key p1 = (None, pm1, w1)
       \<and> Store cd pm1 w1 key p2 = (r2, pm2, w2)
       \<and> r2 \<noteq> Some ErrPacketDroppedByStrategy)
      \<longrightarrow> (\<not> dr \<longrightarrow> r2 = None \<and> Load cd pm2 w2 key = (p1, True))
          \<and> (dr \<and> r2 = None \<longrightarrow> Load cd pm2 w2 key = (p2, True)))
   \<and> ((Store cd NonePersist w key p1 = (r1, pm1, w1)
       \<and> Store cd pm1 w1 key p2 = (r2, pm2, w2))
      \<longrightarrow> r1 = None \<and> r2 = None \<and> Load cd pm2 w2 k = (None, False))
   \<and> (((\<exists>ms. pm = FilePersist (Some ms) \<and> 0 < Interval (f_strategy ms))
       \<and> Store cd pm w key p1 = (r1, pm1, w1)
       \<and> Store cd pm1 w1 key p2 = (r2, pm2, w2))
      \<longrightarrow> Load cd pm2 w2 k = Load cd pm w k)"
proof -
  have policy: "((((\<exists>ms. pm = MemPersist (Some ms) \<and> m_data ms key = None
              \<and> dr = DuplicateReplace (m_strategy ms))
         \<or> (\<exists>ms pk1 pk2. pm = FilePersist (Some ms) \<and> Interval (f_strategy ms) \<le> 0
              \<and> \<not> exists ms w key \<and> getFilename ms key \<notin> faulty w ToRead
              \<and> dr = DuplicateReplace (f_strategy ms)
              \<and> p1 = Some pk1 \<and> p2 = Some pk2
              \<and> Decode cd (Bytes cd pk1) = Inr (Some pk1)
              \<and> Decode cd (Bytes cd pk2) = Inr (Some pk2)))
       \<and> Store cd pm w key p1 = (None, pm1, w1)
       \<and> Store cd pm1 w1 key p2 = (r2, pm2, w2)
       \<and> r2 \<noteq> Some ErrPacketDroppedByStrategy)
      \<longrightarrow> (\<not> dr \<longrightarrow> r2 = None \<and> Load cd pm2 w2 key = (p1, True))
          \<and> (dr \<and> r2 = None \<longrightarrow> Load cd pm2 w2 key = (p2, True)))"
    using duplicate_policy_core[of pm key dr w p1 p2 cd pm1 w1 r2 pm2 w2] by blast
  have noop: "(Store cd NonePersist w key p1 = (r1, pm1, w1)
       \<and> Store cd pm1 w1 key p2 = (r2, pm2, w2))
      \<longrightarrow> r1 = None \<and> r2 = None \<and> Load cd pm2 w2 k = (None, False)"
    by (auto simp: nonePersist_Store_def nonePersist_Load_def)
  have buffered: "((\<exists>ms. pm = FilePersist (Some ms) \<and> 0 < Interval (f_strategy ms))
       \<and> Store cd pm w key p1 = (r1, pm1, w1)
       \<and> Store cd pm1 w1 key p2 = (r2, pm2, w2))
      \<longrightarrow> Load cd pm2 w2 k = Load cd pm w k"
  proof (rule impI)
    assume a: "(\<exists>ms. pm = FilePersist (Some ms) \<and> 0 < Interval (f_strategy ms))
       \<and> Store cd pm w key p1 = (r1, pm1, w1)
       \<and> Store cd pm1 w1 key p2 = (r2, pm2, w2)"
    then obtain ms where ms: "pm = FilePersist (Some ms)" "0 < Interval (f_strategy ms)"
      by blast
    from a have s1: "Store cd pm w key p1 = (r1, pm1, w1)"
      and s2: "Store cd pm1 w1 key p2 = (r2, pm2, w2)" by simp_all
    from buffered_Store_Load[OF ms s1, of k] obtain ms1 where
      l1: "Load cd pm1 w1 k = Load cd pm w k" and
      ms1: "pm1 = FilePersist (Some ms1)" "f_strategy ms1 = f_strategy ms" by blast
    from ms1(2) ms(2) have "0 < Interval (f_strategy ms1)" by simp
    from buffered_Store_Load[OF ms1(1) this s2, of k] l1
    show "Load cd pm2 w2 k = Load cd pm w k" by simp
  qed
  show ?thesis by (rule conjI[OF policy conjI[OF noop buffered]])
qed

theorem duplicate_policy_witness:
  "(case Store raw_codec (MemPersist (NewMemPersist (Some keeping))) empty_world ''k'' (Some [1]) of
      (r1, pm1, w1) \<Rightarrow>
        (case Store raw_codec pm1 w1 ''k'' (Some [2]) of
           (r2, pm2, w2) \<Rightarrow>
             r1 = None \<and> r2 = None \<and> Load raw_codec pm2 w2 ''k'' = (Some [1], True)))
   \<and> (case Store raw_codec (FilePersist (NewFilePersist empty_world ''d'' (Some (dropping 0 0))))
              empty_world ''k'' (Some [1]) of
      (r1, pm1, w1) \<Rightarrow>
        (case Store raw_codec pm1 w1 ''k'' (Some [2]) of
           (r2, pm2, w2) \<Rightarrow>
             r1 = None \<and> r2 = None \<and> Load raw_codec pm2 w2 ''k'' = (Some [2], True)))
   \<and> (case Store raw_codec (FilePersist (Some staged)) empty_world ''k'' (Some [1]) of
      (r1, pm1, w1) \<Rightarrow>
        (case Store raw_codec pm1 w1 ''k'' (Some [2]) of
           (r2, pm2, w2) \<Rightarrow>
             0 < Interval (f_strategy staged)
             \<and> Load raw_codec pm2 w2 ''k'' = Load raw_codec (FilePersist (Some staged)) empty_world ''k''))"
proof -
  let ?m = "MemPersist (NewMemPersist (Some keeping)) :: bytes PersistMethod"
  let ?f = "FilePersist (NewFilePersist empty_world ''d'' (Some (dropping 0 0))) :: bytes PersistMethod"
  let ?b = "FilePersist (Some staged) :: bytes PersistMethod"
  obtain pm1 w1 pm2 w2 where
    a: "Store raw_codec ?m empty_world ''k'' (Some [1]) = (None, pm1, w1)"
       "Store raw_codec pm1 w1 ''k'' (Some [2]) = (None, pm2, w2)"
    by (simp add: store_defs keeping_def)
  have ha: "(\<exists>ms. ?m = MemPersist (Some ms) \<and> m_data ms ''k'' = None
              \<and> False = DuplicateReplace (m_strategy ms))
         \<or> (\<exists>ms pk1 pk2. ?m = FilePersist (Some ms) \<and> Interval (f_strategy ms) \<le> 0
              \<and> \<not> exists ms empty_world ''k''
              \<and> getFilename ms ''k'' \<notin> faulty empty_world ToRead
              \<and> False = DuplicateReplace (f_strategy ms)
              \<and> Some [1] = Some pk1 \<and> Some [2] = Some pk2
              \<and> Decode raw_codec (Bytes raw_codec pk1) = Inr (Some pk1)
              \<and> Decode raw_codec (Bytes raw_codec pk2) = Inr (Some pk2))"
    by (simp add: store_defs keeping_def)
  obtain pm3 w3 pm4 w4 where
    b: "Store raw_codec ?f empty_world ''k'' (Some [1]) = (None, pm3, w3)"
       "Store raw_codec pm3 w3 ''k'' (Some [2]) = (None, pm4, w4)"
    by (simp add: store_defs path_defs)
  have hb: "(\<exists>ms. ?f = MemPersist (Some ms) \<and> m_data ms ''k'' = None
              \<and> True = DuplicateReplace (m_strategy ms))
         \<or> (\<exists>ms pk1 pk2. ?f = FilePersist (Some ms) \<and> Interval (f_strategy ms) \<le> 0
              \<and> \<not> exists ms empty_world ''k''
              \<and> getFilename ms ''k'' \<notin> faulty empty_world ToRead
              \<and> True = DuplicateReplace (f_strategy ms)
              \<and> Some [1] = Some pk1 \<and> Some [2] = Some pk2
              \<and> Decode raw_codec (Bytes raw_codec pk1) = Inr (Some pk1)
              \<and> Decode raw_codec (Bytes raw_codec pk2) = Inr (Some pk2))"
    by (simp add: store_defs path_defs)
  obtain r5 pm5 w5 where c1: "Store raw_codec ?b empty_world ''k'' (Some [1]) = (r5, pm5, w5)"
    by (cases "Store raw_codec ?b empty_world ''k'' (Some [1])") auto
  obtain r6 pm6 w6 where c2: "Store raw_codec pm5 w5 ''k'' (Some [2]) = (r6, pm6, w6)"
    by (cases "Store raw_codec pm5 w5 ''k'' (Some [2])") auto
  have i: "0 < Interval (f_strategy staged)"
    by (simp add: staged_def dropping_def Second_def)
  then have hc: "\<exists>ms. ?b = FilePersist (Some ms) \<and> 0 < Interval (f_strategy ms)" by simp
  have nd: "(None :: error option) \<noteq> Some ErrPacketDroppedByStrategy" by simp
  note t = duplicate_policy[where cd=raw_codec and key="''k''" and ?p1.0="Some [1]" and ?p2.0="Some [2]"]
  from t[THEN conjunct1, rule_format, OF conjI[OF ha conjI[OF a(1) conjI[OF a(2) nd]]]]
    t[THEN conjunct1, rule_format, OF conjI[OF hb conjI[OF b(1) conjI[OF b(2) nd]]]]
    t[where k="''k''", THEN conjunct2, THEN conjunct2, rule_format, OF conjI[OF hc conjI[OF c1 c2]]]
    a b c1 c2 i
  show ?thesis by simp
qed

subsection \<open>Failures of the file system\<close>

text \<open>
  C8, as the claim states it, fails: the packet file of the key is on disk, reading it
  fails, and \<open>Load\<close> returns what it returns for a key with no record.
\<close>

theorem file_errors_counterexample:
  "files broken_world (getFilename staged ''k'') = Some [1]
   \<and> getPacketFromFile raw_codec broken_world (getFilename staged ''k'') = Inl ErrIO
   \<and> filePersist_Load raw_codec (Some staged) broken_world ''k'' = (None, False)
   \<and> filePersist_Load raw_codec (Some staged) empty_world ''k'' = (None, False)"
  by (simp add: store_defs path_d_k broken_world_def staged_def)

text \<open>
  C8 (amended): on the file-backed store, a write that \<open>Store\<close> makes in synchronous mode
  and that fails is returned by \<open>Store\<close>, and a removal that fails is returned by
  \<open>Delete\<close>. \<open>Load\<close> returns absent for every failure to read or decode the file.
\<close>

theorem file_errors:
  "(Interval (f_strategy ms) \<le> 0
      \<and> (\<not> exists ms w key \<or> DuplicateReplace (f_strategy ms))
      \<and> fst (filePersist_Store cd (Some ms) w key (Some pk)) \<noteq> Some ErrPacketDroppedByStrategy
      \<and> fst (ioutil_WriteFile w (getFilename ms key) (Bytes cd pk)) = Some err
      \<longrightarrow> fst (filePersist_Store cd (Some ms) w key (Some pk)) = Some err)
   \<and> (fst (os_Remove w (path_Join (f_dirPath ms) key)) = Some err
      \<longrightarrow> fst (filePersist_Delete (Some ms) w key) = Some err)
   \<and> (getPacketFromFile cd w (getFilename ms key) = Inl err
      \<longrightarrow> filePersist_Load cd (Some ms) w key = (None, False))"
proof (intro conjI; rule impI)
  assume "Interval (f_strategy ms) \<le> 0
      \<and> (\<not> exists ms w key \<or> DuplicateReplace (f_strategy ms))
      \<and> fst (filePersist_Store cd (Some ms) w key (Some pk)) \<noteq> Some ErrPacketDroppedByStrategy
      \<and> fst (ioutil_WriteFile w (getFilename ms key) (Bytes cd pk)) = Some err"
  then show "fst (filePersist_Store cd (Some ms) w key (Some pk)) = Some err"
    by (auto simp: filePersist_Store_def filePersist_store_def split: if_splits prod.splits option.splits)
next
  assume "fst (os_Remove w (path_Join (f_dirPath ms) key)) = Some err"
  then show "fst (filePersist_Delete (Some ms) w key) = Some err"
    by (simp add: filePersist_Delete_def)
next
  assume "getPacketFromFile cd w (getFilename ms key) = Inl err"
  then show "filePersist_Load cd (Some ms) w key = (None, False)"
    by (simp add: filePersist_Load_def)
qed

theorem file_errors_witness:
  "fst (ioutil_WriteFile broken_world (getFilename staged ''k'') (Bytes raw_codec [2])) = Some ErrIO
   \<and> fst (filePersist_Store raw_codec (Some (staged\<lparr>f_strategy := dropping 0 0\<rparr>)) broken_world ''k'' (Some [2]))
       = Some ErrIO
   \<and> fst (filePersist_Delete (Some staged) empty_world ''k'') = Some ErrNotExist
   \<and> filePersist_Load raw_codec (Some staged) broken_world ''k'' = (None, False)"
proof -
  let ?s = "staged\<lparr>f_strategy := dropping 0 0\<rparr>"
  have wf: "fst (ioutil_WriteFile broken_world (getFilename staged ''k'') (Bytes raw_codec [2])) = Some ErrIO"
    by (simp add: store_defs path_d_k broken_world_def staged_def)
  have h1: "Interval (f_strategy ?s) \<le> 0
      \<and> (\<not> exists ?s broken_world ''k'' \<or> DuplicateReplace (f_strategy ?s))
      \<and> fst (filePersist_Store raw_codec (Some ?s) broken_world ''k'' (Some [2])) \<noteq> Some ErrPacketDroppedByStrategy
      \<and> fst (ioutil_WriteFile broken_world (getFilename ?s ''k'') (Bytes raw_codec [2])) = Some ErrIO"
    by (simp add: store_defs path_d_k broken_world_def staged_def)
  have h2: "fst (os_Remove empty_world (path_Join (f_dirPath staged) ''k'')) = Some ErrNotExist"
    by (simp add: store_defs path_defs staged_def)
  have h3: "getPacketFromFile raw_codec broken_world (getFilename staged ''k'') = Inl ErrIO"
    by (simp add: store_defs path_d_k broken_world_def staged_def)
  note t = file_errors[where cd=raw_codec and key="''k''" and pk="[2]"]
  from t[where ms="?s" and w=broken_world and err=ErrIO, THEN conjunct1, rule_format, OF h1]
    t[where ms=staged and w=empty_world and err=ErrNotExist, THEN conjunct2, THEN conjunct1, rule_format, OF h2]
    t[where ms=staged and w=broken_world and err=ErrIO, THEN conjunct2, THEN conjunct2, rule_format, OF h3]
    wf
  show ?thesis by simp
qed

text \<open>
  The flush: with a working disk one round writes the staged record and \<open>worker\<close>
  returns. With the broken disk \<open>store\<close> fails, the round still takes the key out of the
  staging map, \<open>inMemSize\<close> stays positive, and \<open>worker\<close> returns for no amount of
  fuel.
\<close>

lemma worker_flushes:
  "worker 1 raw_codec staged empty_world
     = Some (staged\<lparr>f_inMemBuf := [], f_inMemSize := 0, f_n := 1\<rparr>,
             empty_world\<lparr>files := [''d/k.mqtt'' \<mapsto> [2]], dirs := [''d'' \<mapsto> {''k.mqtt''}]\<rparr>)"
  by (simp add: store_defs path_d_k path_defs staged_def worker_round_def)

lemma worker_round_failed_write:
  "fst (filePersist_store raw_codec (Some staged) broken_world ''k'' (Some [2])) = Some ErrIO
   \<and> worker_round raw_codec staged broken_world = (staged\<lparr>f_inMemBuf := []\<rparr>, broken_world)"
  by (simp add: store_defs path_d_k broken_world_def staged_def worker_round_def)

lemma worker_round_stuck:
  "worker_round raw_codec (staged\<lparr>f_inMemBuf := []\<rparr>) broken_world
     = (staged\<lparr>f_inMemBuf := []\<rparr>, broken_world)"
  by (simp add: worker_round_def)

lemma worker_stuck: "worker fuel raw_codec (staged\<lparr>f_inMemBuf := []\<rparr>) broken_world = None"
proof (induction fuel)
  case 0
  show ?case by simp
next
  case (Suc fuel)
  have "0 < f_inMemSize (staged\<lparr>f_inMemBuf := []\<rparr>)" by (simp add: staged_def)
  with Suc worker_round_stuck show ?case by simp
qed

lemma worker_never_returns: "worker fuel raw_codec staged broken_world = None"
proof (cases fuel)
  case 0
  then show ?thesis by simp
next
  case (Suc k)
  have "0 < f_inMemSize (staged\<lparr>f_inMemBuf := []\<rparr>)" by (simp add: staged_def)
  with Suc worker_round_failed_write worker_stuck[of k] show ?thesis by simp
qed

subsection \<open>The counter of the in-memory store\<close>

lemma finite_stored_by: "finite (stored_by m c)"
  by (cases c) auto

lemma finite_mem_stored: "finite (mem_stored m cs)"
  by (induction cs arbitrary: m) (auto simp: finite_stored_by)

lemma word_succ_below:
  fixes n c :: "32 word"
  assumes "n < c"
  shows "unat (n + 1) = Suc (unat n)" and "n + 1 \<le> c"
proof -
  from assms have "unat n < unat c" by (simp add: word_less_nat_alt)
  moreover have "unat c < 2 ^ 32" using unsigned_less[of c] by simp
  ultimately have "unat n + 1 < 2 ^ 32" by simp
  then show "unat (n + 1) = Suc (unat n)" by (simp add: unat_word_ariths)
  from assms show "n + 1 \<le> c" by (rule inc_le)
qed

lemma mem_call_inv:
  assumes cap: "0 < MaxCount s" "DropOnExceed s"
    and st: "m_strategy ms = s" "dom (m_data ms) \<subseteq> S" "finite S"
            "card S \<le> unat (m_n ms)" "m_n ms \<le> MaxCount s"
  shows "\<exists>ms'. mem_call (Some ms) c = Some ms' \<and> m_strategy ms' = s
           \<and> dom (m_data ms') \<subseteq> S \<union> stored_by (Some ms) c
           \<and> card (S \<union> stored_by (Some ms) c) \<le> unat (m_n ms') \<and> m_n ms' \<le> MaxCount s"
proof (cases c)
  case (MStore key p)
  show ?thesis
  proof (cases "MaxCount s \<le> m_n ms")
    case True
    with cap st MStore show ?thesis by (simp add: memPersist_Store_def)
  next
    case False
    then have lt: "m_n ms < MaxCount s" by simp
    show ?thesis
    proof (cases "m_data ms key")
      case None
      have "card (insert key S) \<le> Suc (card S)" by (simp add: card_insert_le_m1 st(3) card_insert_if)
      with None False cap st MStore word_succ_below[OF lt] show ?thesis
        by (auto simp: memPersist_Store_def)
    next
      case (Some old)
      then have "key \<in> S" using st(2) by auto
      then have "insert key S = S" by auto
      with Some False cap st MStore show ?thesis
        by (auto simp: memPersist_Store_def)
    qed
  qed
next
  case (MLoad key)
  with st show ?thesis by simp
next
  case (MDelete key)
  with st show ?thesis by (auto simp: memPersist_Delete_def)
next
  case MDestroy
  with st show ?thesis by (auto simp: memPersist_Destroy_def)
qed

lemma mem_calls_inv:
  assumes cap: "0 < MaxCount s" "DropOnExceed s"
    and st: "m_strategy ms = s" "dom (m_data ms) \<subseteq> S" "finite S"
            "card S \<le> unat (m_n ms)" "m_n ms \<le> MaxCount s"
  shows "\<exists>ms'. mem_calls (Some ms) cs = Some ms' \<and> m_strategy ms' = s
           \<and> card (S \<union> mem_stored (Some ms) cs) \<le> unat (m_n ms') \<and> m_n ms' \<le> MaxCount s"
  using st
proof (induction cs arbitrary: ms S)
  case Nil
  then show ?case by simp
next
  case (Cons c cs)
  from mem_call_inv[OF cap Cons.prems, of c]
  obtain ms1 where s1: "mem_call (Some ms) c = Some ms1" "m_strategy ms1 = s"
    "dom (m_data ms1) \<subseteq> S \<union> stored_by (Some ms) c"
    "card (S \<union> stored_by (Some ms) c) \<le> unat (m_n ms1)" "m_n ms1 \<le> MaxCount s"
    by blast
  have fin: "finite (S \<union> stored_by (Some ms) c)"
    using Cons.prems(3) by (simp add: finite_stored_by)
  from Cons.IH[OF s1(2) s1(3) fin s1(4) s1(5)] s1(1)
  show ?case by (simp add: Un_assoc)
qed

lemma mem_full_drops:
  assumes cap: "0 < MaxCount s" "DropOnExceed s"
    and full: "unat (MaxCount s) \<le> card (mem_stored (NewMemPersist (Some s)) cs)"
  shows "fst (memPersist_Store (mem_calls (NewMemPersist (Some s)) cs) key p)
           = Some ErrPacketDroppedByStrategy"
proof -
  let ?ms0 = "\<lparr>m_data = Map.empty, m_n = 0, m_strategy = s\<rparr> :: 'a memPersist"
  have new: "NewMemPersist (Some s) = Some ?ms0" by (simp add: NewMemPersist_def)
  have "\<exists>ms'. mem_calls (Some ?ms0) cs = Some ms' \<and> m_strategy ms' = s
           \<and> card ({} \<union> mem_stored (Some ?ms0) cs) \<le> unat (m_n ms') \<and> m_n ms' \<le> MaxCount s"
    by (rule mem_calls_inv[OF cap]) simp_all
  then obtain ms' where r: "mem_calls (Some ?ms0) cs = Some ms'" "m_strategy ms' = s"
    "card (mem_stored (Some ?ms0) cs) \<le> unat (m_n ms')" by auto
  from full r(3) new have "unat (MaxCount s) \<le> unat (m_n ms')" by simp
  then have "MaxCount s \<le> m_n ms'" by (simp add: word_le_nat_alt)
  with cap r(1,2) new show ?thesis by (simp add: memPersist_Store_def)
qed

lemma mem_calls_snoc: "mem_calls m (cs @ [c]) = mem_call (mem_calls m cs) c"
  by (induction cs arbitrary: m) auto

lemma mem_call_count_le:
  assumes "m_n ms \<le> MaxCount (m_strategy ms)" "0 < MaxCount (m_strategy ms)"
    "DropOnExceed (m_strategy ms)"
  shows "unat (mem_count (Some ms)) \<le> unat (mem_count (mem_call (Some ms) c))"
proof (cases c)
  case (MStore key p)
  show ?thesis
  proof (cases "MaxCount (m_strategy ms) \<le> m_n ms")
    case True
    with assms MStore show ?thesis by (simp add: memPersist_Store_def mem_count_def)
  next
    case False
    then have "m_n ms < MaxCount (m_strategy ms)" by simp
    from word_succ_below(1)[OF this] MStore False show ?thesis
      by (simp add: memPersist_Store_def mem_count_def split: option.splits)
  qed
qed (simp_all add: memPersist_Delete_def memPersist_Destroy_def mem_count_def)

lemma mem_count_monotone:
  assumes cap: "0 < MaxCount s" "DropOnExceed s"
  shows "unat (mem_count (mem_calls (NewMemPersist (Some s)) cs))
           \<le> unat (mem_count (mem_calls (NewMemPersist (Some s)) (cs @ [c])))"
proof -
  let ?ms0 = "\<lparr>m_data = Map.empty, m_n = 0, m_strategy = s\<rparr> :: 'a memPersist"
  have new: "NewMemPersist (Some s) = Some ?ms0" by (simp add: NewMemPersist_def)
  have "\<exists>ms'. mem_calls (Some ?ms0) cs = Some ms' \<and> m_strategy ms' = s
           \<and> card ({} \<union> mem_stored (Some ?ms0) cs) \<le> unat (m_n ms') \<and> m_n ms' \<le> MaxCount s"
    by (rule mem_calls_inv[OF cap]) simp_all
  then obtain ms' where r: "mem_calls (Some ?ms0) cs = Some ms'" "m_strategy ms' = s"
    "m_n ms' \<le> MaxCount s" by auto
  from mem_call_count_le[of ms' c] r cap show ?thesis
    by (simp add: new mem_calls_snoc)
qed

text \<open>
  C10: \<open>Delete\<close> and \<open>Destroy\<close> leave the counter of the in-memory store as it is, and
  \<open>Store\<close> leaves it or adds one. With \<open>MaxCount > 0\<close> and drop-on-exceed, along any
  history of calls on a new store the counter never goes down, and once \<open>Store\<close> has
  returned nil for \<open>MaxCount\<close> distinct keys, every later \<open>Store\<close> returns
  \<open>ErrPacketDroppedByStrategy\<close>, whatever was deleted or destroyed in between.
\<close>

theorem mem_count_never_decremented:
  "mem_count (snd (memPersist_Delete m key)) = mem_count m
   \<and> mem_count (snd (memPersist_Destroy m)) = mem_count m
   \<and> (mem_count (snd (memPersist_Store m key p)) = mem_count m
        \<or> mem_count (snd (memPersist_Store m key p)) = mem_count m + 1)
   \<and> (0 < MaxCount s \<and> DropOnExceed s \<longrightarrow>
        unat (mem_count (mem_calls (NewMemPersist (Some s)) cs))
          \<le> unat (mem_count (mem_calls (NewMemPersist (Some s)) (cs @ [c]))))
   \<and> (0 < MaxCount s \<and> DropOnExceed s
        \<and> unat (MaxCount s) \<le> card (mem_stored (NewMemPersist (Some s)) cs) \<longrightarrow>
        fst (memPersist_Store (mem_calls (NewMemPersist (Some s)) cs) key p)
          = Some ErrPacketDroppedByStrategy)"
proof (intro conjI impI)
  show "mem_count (snd (memPersist_Delete m key)) = mem_count m"
    by (simp add: memPersist_Delete_def mem_count_def split: option.splits)
  show "mem_count (snd (memPersist_Destroy m)) = mem_count m"
    by (simp add: memPersist_Destroy_def mem_count_def split: option.splits)
  show "mem_count (snd (memPersist_Store m key p)) = mem_count m
        \<or> mem_count (snd (memPersist_Store m key p)) = mem_count m + 1"
    by (simp add: memPersist_Store_def mem_count_def split: option.splits)
next
  assume "0 < MaxCount s \<and> DropOnExceed s"
  then show "unat (mem_count (mem_calls (NewMemPersist (Some s)) cs))
          \<le> unat (mem_count (mem_calls (NewMemPersist (Some s)) (cs @ [c])))"
    using mem_count_monotone by blast
next
  assume "0 < MaxCount s \<and> DropOnExceed s
        \<and> unat (MaxCount s) \<le> card (mem_stored (NewMemPersist (Some s)) cs)"
  then show "fst (memPersist_Store (mem_calls (NewMemPersist (Some s)) cs) key p)
          = Some ErrPacketDroppedByStrategy"
    using mem_full_drops by blast
qed

theorem mem_count_never_decremented_witness:
  "0 < MaxCount (dropping 2 0) \<and> DropOnExceed (dropping 2 0)
   \<and> unat (MaxCount (dropping 2 0)) \<le> card (mem_stored (NewMemPersist (Some (dropping 2 0))) two_then_cleared)
   \<and> memPersist_Load (mem_calls (NewMemPersist (Some (dropping 2 0))) two_then_cleared) ''a'' = (None, False)
   \<and> memPersist_Load (mem_calls (NewMemPersist (Some (dropping 2 0))) two_then_cleared) ''b'' = (None, False)
   \<and> fst (memPersist_Store (mem_calls (NewMemPersist (Some (dropping 2 0))) two_then_cleared) ''c'' (Some [3]))
       = Some ErrPacketDroppedByStrategy"
proof -
  have h: "0 < MaxCount (dropping 2 0) \<and> DropOnExceed (dropping 2 0)
     \<and> unat (MaxCount (dropping 2 0))
         \<le> card (mem_stored (NewMemPersist (Some (dropping 2 0))) two_then_cleared)"
    by (simp add: two_then_cleared_def store_defs word_le_nat_alt word_less_nat_alt)
  have l: "memPersist_Load (mem_calls (NewMemPersist (Some (dropping 2 0))) two_then_cleared) ''a'' = (None, False)
    \<and> memPersist_Load (mem_calls (NewMemPersist (Some (dropping 2 0))) two_then_cleared) ''b'' = (None, False)"
    by (simp add: two_then_cleared_def store_defs word_le_nat_alt word_less_nat_alt)
  from mem_count_never_decremented[of _ _ "Some [3]" "dropping 2 0" two_then_cleared _ , THEN conjunct2,
      THEN conjunct2, THEN conjunct2, THEN conjunct2] h l
  show ?thesis by blast
qed

section \<open>Properties of the connection handlers\<close>

lemmas conn_defs = handleConn_def handleWS_def tcpWorker_def newConn_def idle_def conf311_def
  garbage_def ping_def hello_def initTCPListen_accept_def initTCPSListen_accept_def live_def

subsection \<open>A handshake that fails\<close>

text \<open>
  C6 fails where decoding fails: \<open>handleConn\<close> returns and the transport connection is
  left open (likewise in the accept loop and in \<open>tcpWorker\<close>), while a first packet that
  is not a connect packet closes it.
\<close>

theorem handshake_decode_failure_leaves_open:
  "handleConn conf311 garbage 7 idle = idle
   \<and> 7 \<notin> closed (handleConn conf311 garbage 7 idle)
   \<and> 7 \<notin> closed (initTCPListen_accept conf311 garbage (Accepted 7) idle)
   \<and> 7 \<notin> closed (tcpWorker (garbage V5) 7 idle)
   \<and> closed (handleConn conf311 ping 7 idle) = {7}"
  by (simp add: conn_defs)

text \<open>
  The rest of the claim holds: no handler writes a packet, a first packet of another kind
  closes the connection, and the WebSocket handler closes it in every case.
\<close>

lemma handshake_sends_nothing:
  "sent (handleConn conf decode conn st) = sent st"
  "sent (handleWS conf decode up st) = sent st"
  "sent (tcpWorker decodeOne conn st) = sent st"
  by (auto simp: handleConn_def handleWS_def tcpWorker_def Let_def
      split: ProtoVersion.splits sum.splits option.splits)

lemma handshake_not_connect_closes:
  assumes "version conf = V311 \<or> version conf = V5"
    and "decode (version conf) conn = Inr pkt" and "asConnPacket pkt = None"
  shows "conn \<in> closed (handleConn conf decode conn st)"
  using assms by (auto simp: handleConn_def)

lemma handleWS_closes:
  "conn \<in> closed (handleWS conf decode (Inr conn) st)"
  by (simp add: handleWS_def Let_def)

subsection \<open>The registry\<close>

text \<open>
  C5, as the claim states it, fails: after a connect packet with client identifier
  \<open>c1\<close> neither handler has an entry under \<open>c1\<close>, and a second handshake with the
  same identifier leaves the first connection open.
\<close>

theorem registry_counterexample:
  "connections (tcpWorker (hello ''c1'' V5) 1 idle) ''c1'' = None
   \<and> connections (handleConn conf311 (hello ''c1'') 1 idle) ''c1'' = None
   \<and> 1 \<notin> closed (tcpWorker (hello ''c1'' V5) 2 (tcpWorker (hello ''c1'' V5) 1 idle))"
  by (simp add: conn_defs)

text \<open>
  C5 (amended): after a well-formed connect packet \<open>tcpWorker\<close> stores the connection
  in the registry under one key, taking the place of the connection stored under that key
  before; the registry is a map, so it holds at most one connection per key. No handshake
  closes a connection other than its own: the connection that is replaced stays open.
\<close>

theorem registry_after_handshake:
  "(asConnPacket pkt = Some connPkt \<and> decodeOne conn = Inr pkt \<longrightarrow>
      (\<exists>k. connections (tcpWorker decodeOne conn st)
              = (connections st)(k \<mapsto> \<lparr>t_conn = conn, t_connPkt = connPkt, t_cancelled = False\<rparr>))
      \<and> closed (tcpWorker decodeOne conn st) = closed st)
   \<and> closed (tcpWorker decodeOne conn st) \<subseteq> insert conn (closed st)
   \<and> closed (handleConn conf decode conn st) \<subseteq> insert conn (closed st)"
  by (auto simp: tcpWorker_def handleConn_def
      split: ProtoVersion.splits sum.splits option.splits)

theorem registry_after_handshake_witness:
  "(\<exists>k. connections (tcpWorker (hello ''c1'' V5) 2 (tcpWorker (hello ''c1'' V5) 1 idle))
          = (connections (tcpWorker (hello ''c1'' V5) 1 idle))
              (k \<mapsto> \<lparr>t_conn = 2, t_connPkt = ConnPacket ''c1'' 10, t_cancelled = False\<rparr>))
   \<and> closed (tcpWorker (hello ''c1'' V5) 2 (tcpWorker (hello ''c1'' V5) 1 idle))
       = closed (tcpWorker (hello ''c1'' V5) 1 idle)"
proof -
  have h: "asConnPacket (Some (ConnPacket ''c1'' 10)) = Some (ConnPacket ''c1'' 10)
      \<and> hello ''c1'' V5 2 = Inr (Some (ConnPacket ''c1'' 10))"
    by (simp add: hello_def)
  from registry_after_handshake[where decodeOne="hello ''c1'' V5" and conn=2
      and st="tcpWorker (hello ''c1'' V5) 1 idle", THEN conjunct1, rule_format, OF h]
  show ?thesis .
qed

subsection \<open>The caps on connections\<close>

text \<open>
  C9 fails: with the cap of the TCP transport at 1 and one live connection accepted on
  it, a second connection is accepted and both are live.
\<close>

theorem cap_reached_accepts:
  "cap (conf311\<lparr>maxTcp := 1\<rparr>) TCP = 1
   \<and> live (serve TCP (conf311\<lparr>maxTcp := 1\<rparr>) (hello ''a'') 1 idle) = {1}
   \<and> live (serve TCP (conf311\<lparr>maxTcp := 1\<rparr>) (hello ''b'') 2
             (serve TCP (conf311\<lparr>maxTcp := 1\<rparr>) (hello ''a'') 1 idle)) = {1, 2}"
  by (auto simp: conn_defs)

text \<open>
  No transport reads its cap: a connection is served the same way whatever the four caps
  are, no other connection is closed or stopped, and on the two TCP transports a
  connection that opens with a connect packet is live afterwards.
\<close>

lemma caps_not_enforced:
  "serve t (conf\<lparr>maxTcp := a, maxTcps := b, maxWs := c, maxWss := d\<rparr>) decode conn st
     = serve t conf decode conn st
   \<and> closed (serve t conf decode conn st) \<subseteq> insert conn (closed st)
   \<and> (\<exists>new. running (serve t conf decode conn st) = running st @ new)
   \<and> ((t = TCP \<or> t = TCPS) \<and> (version conf = V311 \<or> version conf = V5)
        \<and> decode (version conf) conn = Inr (Some (ConnPacket cid ka)) \<and> conn \<notin> closed st
      \<longrightarrow> conn \<in> live (serve t conf decode conn st))"
proof (intro conjI)
  show "serve t (conf\<lparr>maxTcp := a, maxTcps := b, maxWs := c, maxWss := d\<rparr>) decode conn st
     = serve t conf decode conn st"
    by (cases t) (simp_all add: initTCPListen_accept_def initTCPSListen_accept_def
        handleWS_def handleConn_def)
  show "closed (serve t conf decode conn st) \<subseteq> insert conn (closed st)"
    by (cases t) (auto simp: initTCPListen_accept_def initTCPSListen_accept_def
        handleWS_def handleConn_def Let_def split: ProtoVersion.splits sum.splits option.splits)
  show "\<exists>new. running (serve t conf decode conn st) = running st @ new"
    by (cases t) (auto simp: initTCPListen_accept_def initTCPSListen_accept_def
        handleWS_def handleConn_def Let_def split: ProtoVersion.splits sum.splits option.splits)
  show "(t = TCP \<or> t = TCPS) \<and> (version conf = V311 \<or> version conf = V5)
        \<and> decode (version conf) conn = Inr (Some (ConnPacket cid ka)) \<and> conn \<notin> closed st
      \<longrightarrow> conn \<in> live (serve t conf decode conn st)"
    by (auto simp: initTCPListen_accept_def initTCPSListen_accept_def handleConn_def
        live_def newConn_def)
qed

section \<open>Properties of the shutdown\<close>

lemmas sup_defs = Init_listen_def Init_exit_def step_def initTCPListen_def initTCPSListen_def
  initWSListen_def initWSSListen_def destroy_def start_def

text \<open>
  C7 fails: with all four transports enabled and started, the exit signal closes no
  listening socket and calls no \<open>Shutdown\<close>. The package variables that \<open>destroy\<close>
  tests are still nil, since each listener was bound to a local variable.
\<close>

theorem shutdown_closes_nothing:
  "(case Init_listen conf311 fair_env start of
      Inl a \<Rightarrow> False
    | Inr s \<Rightarrow>
        listening s = {TCP, TCPS, WS, WSS}
        \<and> listening (Init_exit s) = {TCP, TCPS, WS, WSS}
        \<and> shutdowns (Init_exit s) = [])"
  by (auto simp: sup_defs conf311_def fair_env_def Let_def)

text \<open>The same for every configuration and every start-up that does not abort.\<close>

lemma Init_listen_globals:
  assumes "Init_listen conf e s = Inr s'"
  shows "tcpService s' = tcpService s \<and> tcpsService s' = tcpsService s
       \<and> wsService s' = wsService s \<and> wssService s' = wssService s"
  using assms
  by (auto simp: Init_listen_def step_def initTCPListen_def initTCPSListen_def
      initWSListen_def initWSSListen_def split: if_splits sum.splits)

lemma destroy_nil:
  assumes "tcpService s = None" "tcpsService s = None" "wsService s = None" "wssService s = None"
  shows "destroy timeout s = s"
  using assms by (simp add: destroy_def)

lemma Init_exit_after_Init_listen:
  assumes "Init_listen conf e start = Inr s"
  shows "listening (Init_exit s) = listening s \<and> shutdowns (Init_exit s) = shutdowns s"
proof -
  from Init_listen_globals[OF assms]
  have "destroy (10 * Second) s = s" by (intro destroy_nil) (simp_all add: start_def)
  then show ?thesis by (simp add: Init_exit_def)
qed

end
